theory Spec2Isabelle
  imports Main "HOL-Library.Multiset"
begin

section \<open>Python values, errors and built-ins used by the seller scripts\<close>

text \<open>
  The supplier feed is a list of dictionaries read from a spreadsheet. A cell is a
  Python string or an integer; a key that is absent reads as \<open>None\<close> through
  \<open>dict.get\<close>. Floating-point cells are outside this development. An integer cell is
  a spreadsheet number, a double that the reader has turned into an integer, so it has
  at most 309 digits and \<open>str\<close> of it is never refused for its length.

  A Python \<open>str\<close> is modelled as a \<open>string\<close> holding its UTF-8 encoding. The
  characters the scripts themselves inspect are ASCII (\<open>.\<close> and the digits), and every
  byte of a multi-byte UTF-8 sequence is at least 128, so splitting at \<open>.\<close> and keeping
  the ASCII digits give the same result on the encoding as on the code points. The
  built-in \<open>int\<close> looks at code points; for it the encoding is decoded.
\<close>

datatype pyval = PStr string | PInt int | PNone

datatype py_error =
    ValueError
  | TypeError
  | AttributeError
  | IndexError
  | ReadTimeout
  | ConnectionError
  | HTTPError

definition digit_char :: "nat \<Rightarrow> char" where
  "digit_char d = char_of (48 + d)"

fun str_nat :: "nat \<Rightarrow> string" where
  "str_nat n = (if n < 10 then [digit_char n] else str_nat (n div 10) @ [digit_char (n mod 10)])"

declare str_nat.simps [simp del]

definition str_int :: "int \<Rightarrow> string" where
  "str_int i = (if i < 0 then CHR ''-'' # str_nat (nat (- i)) else str_nat (nat i))"

text \<open>\<open>str(v)\<close> of Python.\<close>

fun py_str :: "pyval \<Rightarrow> string" where
  "py_str (PStr s) = s"
| "py_str (PInt i) = str_int i"
| "py_str PNone = ''None''"

definition is_digit :: "char \<Rightarrow> bool" where
  "is_digit c = (48 \<le> (of_char c :: nat) \<and> (of_char c :: nat) \<le> 57)"

definition digit_val :: "char \<Rightarrow> nat" where
  "digit_val c = of_char c - 48"

text \<open>
  What \<open>int\<close> takes from the interpreter and not from the scripts: the bound on the
  number of digits it converts (\<open>sys.int_max_str_digits\<close>, 4300 unless configured, 0
  for no bound; an interpreter older than the bound behaves as with 0), and two
  properties of a code point in the Unicode database of the interpreter, whether it is
  white space and which decimal digit it is.
\<close>

record interpreter =
  int_max_str_digits :: nat
  unicode_isspace :: "nat \<Rightarrow> bool"
  unicode_todecimal :: "nat \<Rightarrow> nat option"

text \<open>
  The code points of a UTF-8 encoding: one to four bytes each, in the shortest form,
  no surrogate and nothing above \<open>0x10FFFF\<close>. A byte sequence that is no encoding is
  not a Python \<open>str\<close>; it decodes to \<open>None\<close>.
\<close>

definition continuation :: "char \<Rightarrow> bool" where
  "continuation c = (128 \<le> (of_char c :: nat) \<and> (of_char c :: nat) < 192)"

fun utf8_decode :: "string \<Rightarrow> nat list option" where
  "utf8_decode [] = Some []"
| "utf8_decode (c # cs) =
     (let b = (of_char c :: nat) in
      if b < 128 then map_option ((#) b) (utf8_decode cs)
      else if 194 \<le> b \<and> b < 224 then
        (case cs of
           c1 # r \<Rightarrow>
             if continuation c1
             then map_option ((#) ((b - 192) * 64 + (of_char c1 - 128))) (utf8_decode r)
             else None
         | _ \<Rightarrow> None)
      else if 224 \<le> b \<and> b < 240 then
        (case cs of
           c1 # c2 # r \<Rightarrow>
             (let ch = (b - 224) * 4096 + (of_char c1 - 128) * 64 + (of_char c2 - 128) in
              if continuation c1 \<and> continuation c2
                 \<and> 2048 \<le> ch \<and> \<not> (55296 \<le> ch \<and> ch < 57344)
              then map_option ((#) ch) (utf8_decode r)
              else None)
         | _ \<Rightarrow> None)
      else if 240 \<le> b \<and> b < 245 then
        (case cs of
           c1 # c2 # c3 # r \<Rightarrow>
             (let ch = (b - 240) * 262144 + (of_char c1 - 128) * 4096
                        + (of_char c2 - 128) * 64 + (of_char c3 - 128) in
              if continuation c1 \<and> continuation c2 \<and> continuation c3
                 \<and> 65536 \<le> ch \<and> ch < 1114112
              then map_option ((#) ch) (utf8_decode r)
              else None)
         | _ \<Rightarrow> None)
      else None)"

text \<open>
  Before it parses a \<open>str\<close> that is not ASCII, \<open>int\<close> rewrites it: a code point
  below 127 stays, white space becomes a blank, a decimal digit becomes its ASCII
  digit, and anything else becomes \<open>?\<close>, where the rewriting stops.
\<close>

fun transform_decimal_and_space :: "interpreter \<Rightarrow> nat list \<Rightarrow> string" where
  "transform_decimal_and_space py [] = []"
| "transform_decimal_and_space py (ch # chs) =
     (if ch < 127 then char_of ch # transform_decimal_and_space py chs
      else if unicode_isspace py ch then CHR '' '' # transform_decimal_and_space py chs
      else (case unicode_todecimal py ch of
              None \<Rightarrow> [CHR ''?'']
            | Some d \<Rightarrow> char_of (48 + d) # transform_decimal_and_space py chs))"

text \<open>The white space of the parser itself: tab, the line and page breaks, blank.\<close>

definition is_space :: "char \<Rightarrow> bool" where
  "is_space c = ((of_char c :: nat) \<in> {9, 10, 11, 12, 13, 32})"

definition strip :: "string \<Rightarrow> string" where
  "strip s = rev (dropWhile is_space (rev (dropWhile is_space s)))"

text \<open>
  The digits of a decimal literal: at least one digit, single underscores allowed
  between digits only. The flag says whether the previous character was a digit.
\<close>

fun digits_value :: "bool \<Rightarrow> nat \<Rightarrow> string \<Rightarrow> nat option" where
  "digits_value prev acc [] = (if prev then Some acc else None)"
| "digits_value prev acc (c # cs) =
     (if is_digit c then digits_value True (10 * acc + digit_val c) cs
      else if c = CHR ''_'' \<and> prev then digits_value False acc cs
      else None)"

text \<open>
  The bound on the digits of a literal: it counts the digits, not the underscores, and
  is looked at only above 640 digits.
\<close>

definition too_many_digits :: "interpreter \<Rightarrow> nat \<Rightarrow> bool" where
  "too_many_digits py k = (640 < k \<and> 0 < int_max_str_digits py \<and> int_max_str_digits py < k)"

text \<open>
  The parser of \<open>int\<close> in base 10 on the rewritten text: white space, an optional sign,
  the digits, white space.
\<close>

definition long_from_string :: "interpreter \<Rightarrow> string \<Rightarrow> py_error + int" where
  "long_from_string py s =
     (case strip s of
        [] \<Rightarrow> Inl ValueError
      | c # cs \<Rightarrow>
          (let ds = (if c = CHR ''-'' \<or> c = CHR ''+'' then cs else c # cs) in
           case digits_value False 0 ds of
             None \<Rightarrow> Inl ValueError
           | Some n \<Rightarrow>
               if too_many_digits py (length (filter is_digit ds)) then Inl ValueError
               else Inr (if c = CHR ''-'' then - int n else int n)))"

text \<open>\<open>int(s)\<close> of Python for a string \<open>s\<close>.\<close>

definition py_int_str :: "interpreter \<Rightarrow> string \<Rightarrow> py_error + int" where
  "py_int_str py s =
     (if list_all (\<lambda>c. (of_char c :: nat) < 128) s then long_from_string py s
      else (case utf8_decode s of
              None \<Rightarrow> Inl ValueError
            | Some chs \<Rightarrow> long_from_string py (transform_decimal_and_space py chs)))"

text \<open>\<open>int(v)\<close> of Python: an integer is returned as it is, \<open>None\<close> is a type error.\<close>

fun py_int :: "interpreter \<Rightarrow> pyval \<Rightarrow> py_error + int" where
  "py_int py (PStr s) = py_int_str py s"
| "py_int py (PInt i) = Inr i"
| "py_int py PNone = Inl TypeError"

text \<open>\<open>s.split(sep)\<close> for a separator of one character.\<close>

fun split_chr :: "char \<Rightarrow> string \<Rightarrow> string list" where
  "split_chr sep [] = [[]]"
| "split_chr sep (c # cs) =
     (if c = sep then [] # split_chr sep cs
      else (case split_chr sep cs of
              [] \<Rightarrow> [[c]]
            | p # ps \<Rightarrow> (c # p) # ps))"

text \<open>\<open>xs[0]\<close>.\<close>

definition first_item :: "'a list \<Rightarrow> py_error + 'a" where
  "first_item xs = (case xs of [] \<Rightarrow> Inl IndexError | x # _ \<Rightarrow> Inr x)"

text \<open>\<open>re.sub("[^0-9]", "", s)\<close>: every character outside \<open>0\<close>..\<open>9\<close> is deleted.\<close>

definition re_sub_non_digits :: "string \<Rightarrow> string" where
  "re_sub_non_digits s = filter is_digit s"

section \<open>The supplier feed and the update records\<close>

text \<open>
  One row of the feed; the fields are the columns read by the scripts:
  \<open>Kod\<close> the item code, \<open>Kolichestvo\<close> the quantity, \<open>Tsena\<close> the price.
\<close>

record watch =
  Kod :: pyval
  Kolichestvo :: pyval
  Tsena :: pyval

text \<open>Ozon: \<open>{"offer_id": ..., "stock": ...}\<close>.\<close>

record stock_update =
  offer_id :: string
  stock :: int

text \<open>Ozon: the price dictionary of \<open>create_prices\<close>.\<close>

record price_update =
  auto_action_enabled :: string
  currency_code :: string
  price_offer_id :: string
  old_price :: string
  price :: string

text \<open>Yandex Market: the stock dictionary with its single item.\<close>

record sku_item =
  count :: int
  item_type :: string
  updatedAt :: string

record sku_update =
  sku :: string
  warehouseId :: string
  items :: "sku_item list"

text \<open>Yandex Market: the price dictionary.\<close>

record price_value =
  "value" :: int
  currencyId :: string

record offer_price =
  offer_price_id :: string
  offer_price_price :: price_value

section \<open>Normalisation of quantities and prices\<close>

text \<open>
  The branch of \<open>create_stocks\<close> that turns the quantity cell into a stock count:
  \<open>count = str(cell)\<close> is compared with the two sentinel tokens, anything else goes
  through \<open>int(cell)\<close> on the cell itself.
\<close>

definition stock_of_count :: "interpreter \<Rightarrow> pyval \<Rightarrow> py_error + int" where
  "stock_of_count py cell =
     (let count = py_str cell in
      if count = ''>10'' then Inr 100
      else if count = ''1'' then Inr 0
      else py_int py cell)"

text \<open>\<open>price_conversion\<close>: only a string has \<open>split\<close>.\<close>

fun price_conversion :: "pyval \<Rightarrow> py_error + string" where
  "price_conversion (PStr s) =
     (case first_item (split_chr (CHR ''.'') s) of
        Inl e \<Rightarrow> Inl e
      | Inr p \<Rightarrow> Inr (re_sub_non_digits p))"
| "price_conversion (PInt i) = Inl AttributeError"
| "price_conversion PNone = Inl AttributeError"

section \<open>Reconciliation\<close>

text \<open>
  \<open>create_stocks\<close> of the Ozon script. The list \<open>offer_ids\<close> is mutated in place
  (\<open>offer_ids.remove\<close> deletes the first occurrence), so the model returns it beside
  the stocks. The first loop appends to \<open>stocks\<close> in feed order.
\<close>

fun create_stocks_loop ::
  "interpreter \<Rightarrow> watch list \<Rightarrow> string list \<Rightarrow> stock_update list \<Rightarrow> py_error + (stock_update list \<times> string list)" where
  "create_stocks_loop py [] offer_ids stocks = Inr (stocks, offer_ids)"
| "create_stocks_loop py (w # ws) offer_ids stocks =
     (if py_str (Kod w) \<in> set offer_ids then
        (case stock_of_count py (Kolichestvo w) of
           Inl e \<Rightarrow> Inl e
         | Inr n \<Rightarrow>
             create_stocks_loop py ws (remove1 (py_str (Kod w)) offer_ids)
               (stocks @ [\<lparr>offer_id = py_str (Kod w), stock = n\<rparr>]))
      else create_stocks_loop py ws offer_ids stocks)"

definition create_stocks ::
  "interpreter \<Rightarrow> watch list \<Rightarrow> string list \<Rightarrow> py_error + (stock_update list \<times> string list)" where
  "create_stocks py watch_remnants offer_ids =
     (case create_stocks_loop py watch_remnants offer_ids [] of
        Inl e \<Rightarrow> Inl e
      | Inr (stocks, rest) \<Rightarrow>
          Inr (stocks @ map (\<lambda>i. \<lparr>offer_id = i, stock = 0\<rparr>) rest, rest))"

text \<open>
  \<open>create_stocks\<close> of the Yandex Market script; \<open>date\<close> is the clock reading taken
  once before the loop.
\<close>

definition sku_entry :: "string \<Rightarrow> string \<Rightarrow> string \<Rightarrow> int \<Rightarrow> sku_update" where
  "sku_entry warehouse_id date i n =
     \<lparr>sku = i, warehouseId = warehouse_id,
      items = [\<lparr>count = n, item_type = ''FIT'', updatedAt = date\<rparr>]\<rparr>"

fun market_create_stocks_loop ::
  "interpreter \<Rightarrow> string \<Rightarrow> string \<Rightarrow> watch list \<Rightarrow> string list \<Rightarrow> sku_update list
     \<Rightarrow> py_error + (sku_update list \<times> string list)" where
  "market_create_stocks_loop py warehouse_id date [] offer_ids stocks = Inr (stocks, offer_ids)"
| "market_create_stocks_loop py warehouse_id date (w # ws) offer_ids stocks =
     (if py_str (Kod w) \<in> set offer_ids then
        (case stock_of_count py (Kolichestvo w) of
           Inl e \<Rightarrow> Inl e
         | Inr n \<Rightarrow>
             market_create_stocks_loop py warehouse_id date ws (remove1 (py_str (Kod w)) offer_ids)
               (stocks @ [sku_entry warehouse_id date (py_str (Kod w)) n]))
      else market_create_stocks_loop py warehouse_id date ws offer_ids stocks)"

definition market_create_stocks ::
  "interpreter \<Rightarrow> watch list \<Rightarrow> string list \<Rightarrow> string \<Rightarrow> string \<Rightarrow> py_error + (sku_update list \<times> string list)" where
  "market_create_stocks py watch_remnants offer_ids warehouse_id date =
     (case market_create_stocks_loop py warehouse_id date watch_remnants offer_ids [] of
        Inl e \<Rightarrow> Inl e
      | Inr (stocks, rest) \<Rightarrow>
          Inr (stocks @ map (\<lambda>i. sku_entry warehouse_id date i 0) rest, rest))"

text \<open>\<open>create_prices\<close> of the Ozon script: \<open>offer_ids\<close> is only read.\<close>

definition ozon_price :: "string \<Rightarrow> string \<Rightarrow> price_update" where
  "ozon_price i p =
     \<lparr>auto_action_enabled = ''UNKNOWN'', currency_code = ''RUB'', price_offer_id = i,
      old_price = ''0'', price = p\<rparr>"

fun create_prices_loop ::
  "watch list \<Rightarrow> string list \<Rightarrow> price_update list \<Rightarrow> py_error + price_update list" where
  "create_prices_loop [] offer_ids prices = Inr prices"
| "create_prices_loop (w # ws) offer_ids prices =
     (if py_str (Kod w) \<in> set offer_ids then
        (case price_conversion (Tsena w) of
           Inl e \<Rightarrow> Inl e
         | Inr p \<Rightarrow> create_prices_loop ws offer_ids (prices @ [ozon_price (py_str (Kod w)) p]))
      else create_prices_loop ws offer_ids prices)"

definition create_prices :: "watch list \<Rightarrow> string list \<Rightarrow> py_error + price_update list" where
  "create_prices watch_remnants offer_ids = create_prices_loop watch_remnants offer_ids []"

text \<open>
  \<open>create_prices\<close> of the Yandex Market script: the digits go through \<open>int\<close>, which
  raises on the empty string.
\<close>

definition market_price_value :: "interpreter \<Rightarrow> pyval \<Rightarrow> py_error + int" where
  "market_price_value py cell =
     (case price_conversion cell of Inl e \<Rightarrow> Inl e | Inr p \<Rightarrow> py_int_str py p)"

definition market_price :: "string \<Rightarrow> int \<Rightarrow> offer_price" where
  "market_price i v =
     \<lparr>offer_price_id = i, offer_price_price = \<lparr>value = v, currencyId = ''RUR''\<rparr>\<rparr>"

fun market_create_prices_loop ::
  "interpreter \<Rightarrow> watch list \<Rightarrow> string list \<Rightarrow> offer_price list \<Rightarrow> py_error + offer_price list" where
  "market_create_prices_loop py [] offer_ids prices = Inr prices"
| "market_create_prices_loop py (w # ws) offer_ids prices =
     (if py_str (Kod w) \<in> set offer_ids then
        (case market_price_value py (Tsena w) of
           Inl e \<Rightarrow> Inl e
         | Inr v \<Rightarrow> market_create_prices_loop py ws offer_ids (prices @ [market_price (py_str (Kod w)) v]))
      else market_create_prices_loop py ws offer_ids prices)"

definition market_create_prices ::
  "interpreter \<Rightarrow> watch list \<Rightarrow> string list \<Rightarrow> py_error + offer_price list" where
  "market_create_prices py watch_remnants offer_ids =
     market_create_prices_loop py watch_remnants offer_ids []"

section \<open>Batches\<close>

text \<open>
  \<open>range(start, stop, step)\<close>: a zero step raises \<open>ValueError\<close>; a positive step counts
  up while below \<open>stop\<close>, a negative one counts down while above it.
\<close>

function range_up :: "int \<Rightarrow> int \<Rightarrow> int \<Rightarrow> int list" where
  "range_up i stop step = (if 0 < step \<and> i < stop then i # range_up (i + step) stop step else [])"
  by pat_completeness auto
termination
  by (relation "measure (\<lambda>(i, stop, step). nat (stop - i))") auto

function range_down :: "int \<Rightarrow> int \<Rightarrow> int \<Rightarrow> int list" where
  "range_down i stop step = (if step < 0 \<and> stop < i then i # range_down (i + step) stop step else [])"
  by pat_completeness auto
termination
  by (relation "measure (\<lambda>(i, stop, step). nat (i - stop))") auto

declare range_up.simps [simp del] range_down.simps [simp del]

definition py_range :: "int \<Rightarrow> int \<Rightarrow> int \<Rightarrow> py_error + int list" where
  "py_range start stop step =
     (if step = 0 then Inl ValueError
      else if 0 < step then Inr (range_up start stop step)
      else Inr (range_down start stop step))"

text \<open>\<open>xs[i:j]\<close>: a negative bound counts from the end, both bounds are clamped.\<close>

definition slice_bound :: "nat \<Rightarrow> int \<Rightarrow> nat" where
  "slice_bound len k = (if k < 0 then nat (max 0 (int len + k)) else min (nat k) len)"

definition py_slice :: "'a list \<Rightarrow> int \<Rightarrow> int \<Rightarrow> 'a list" where
  "py_slice xs i j =
     (let lo = slice_bound (length xs) i; hi = slice_bound (length xs) j
      in take (hi - lo) (drop lo xs))"

text \<open>
  \<open>list(divide(lst, n))\<close>: \<open>divide\<close> is a generator, so nothing runs, and nothing is
  raised, before it is iterated; every caller in the scripts iterates it at once
  through \<open>list\<close>.
\<close>

definition divide_list :: "'a list \<Rightarrow> int \<Rightarrow> py_error + 'a list list" where
  "divide_list lst n =
     (case py_range 0 (int (length lst)) n of
        Inl e \<Rightarrow> Inl e
      | Inr starts \<Rightarrow> Inr (map (\<lambda>i. py_slice lst i (i + n)) starts))"

section \<open>The marketplace and the upload flows\<close>

text \<open>
  The HTTP calls are the only effects of the scripts. A run is modelled by the trace
  of calls it has made so far; the marketplace and the feed source are a \<open>server\<close>
  that answers each call as a function of the trace before it, so any behaviour of
  the outside world along one sequential run is covered. \<open>raise_for_status\<close> and
  the transport exceptions are the \<open>Inl\<close> and \<open>Some\<close> answers. Credentials and
  campaign identifiers only select the server and are left out. The pagination inside
  \<open>get_offer_ids\<close> is not modelled: the call stands for the whole fetch, which either
  raises or returns the list; a fetch whose loop never reaches its end makes no later
  call and is not represented.
\<close>

datatype ('s, 'p) call =
    GetOfferIds
  | DownloadStock
  | UpdateStocks "'s list"
  | UpdatePrice "'p list"

record ('s, 'p) server =
  offer_ids_reply :: "('s, 'p) call list \<Rightarrow> py_error + string list"
  download_reply :: "('s, 'p) call list \<Rightarrow> py_error + watch list"
  update_reply :: "('s, 'p) call list \<Rightarrow> ('s, 'p) call \<Rightarrow> py_error option"

definition get_offer_ids ::
  "('s, 'p) server \<Rightarrow> ('s, 'p) call list \<Rightarrow> (py_error + string list) \<times> ('s, 'p) call list" where
  "get_offer_ids srv tr = (offer_ids_reply srv tr, tr @ [GetOfferIds])"

definition download_stock ::
  "('s, 'p) server \<Rightarrow> ('s, 'p) call list \<Rightarrow> (py_error + watch list) \<times> ('s, 'p) call list" where
  "download_stock srv tr = (download_reply srv tr, tr @ [DownloadStock])"

text \<open>
  \<open>for some in batches: update(some, ...)\<close>: the first call that raises ends the loop,
  the exception leaves the enclosing function.
\<close>

fun submit_each ::
  "('s, 'p) server \<Rightarrow> ('b list \<Rightarrow> ('s, 'p) call) \<Rightarrow> 'b list list \<Rightarrow> ('s, 'p) call list
     \<Rightarrow> (py_error + unit) \<times> ('s, 'p) call list" where
  "submit_each srv update [] tr = (Inr (), tr)"
| "submit_each srv update (some # batches) tr =
     (case update_reply srv tr (update some) of
        Some e \<Rightarrow> (Inl e, tr @ [update some])
      | None \<Rightarrow> submit_each srv update batches (tr @ [update some]))"

text \<open>\<open>for some in list(divide(lst, n)): update(some, ...)\<close>.\<close>

definition submit_batches ::
  "('s, 'p) server \<Rightarrow> ('b list \<Rightarrow> ('s, 'p) call) \<Rightarrow> 'b list \<Rightarrow> int \<Rightarrow> ('s, 'p) call list
     \<Rightarrow> (py_error + unit) \<times> ('s, 'p) call list" where
  "submit_batches srv update lst n tr =
     (case divide_list lst n of
        Inl e \<Rightarrow> (Inl e, tr)
      | Inr batches \<Rightarrow> submit_each srv update batches tr)"

text \<open>
  The bodies of the coroutines \<open>upload_prices\<close> and \<open>upload_stocks\<close> of the Ozon
  script, as they run once awaited.
\<close>

definition upload_prices ::
  "(stock_update, price_update) server \<Rightarrow> watch list \<Rightarrow> (stock_update, price_update) call list
     \<Rightarrow> (py_error + price_update list) \<times> (stock_update, price_update) call list" where
  "upload_prices srv watch_remnants tr =
     (case get_offer_ids srv tr of
        (Inl e, tr1) \<Rightarrow> (Inl e, tr1)
      | (Inr offer_ids, tr1) \<Rightarrow>
          (case create_prices watch_remnants offer_ids of
             Inl e \<Rightarrow> (Inl e, tr1)
           | Inr prices \<Rightarrow>
               (case submit_batches srv UpdatePrice prices 1000 tr1 of
                  (Inl e, tr2) \<Rightarrow> (Inl e, tr2)
                | (Inr u, tr2) \<Rightarrow> (Inr prices, tr2))))"

definition upload_stocks ::
  "interpreter \<Rightarrow> (stock_update, price_update) server \<Rightarrow> watch list \<Rightarrow> (stock_update, price_update) call list
     \<Rightarrow> (py_error + stock_update list \<times> stock_update list) \<times> (stock_update, price_update) call list" where
  "upload_stocks py srv watch_remnants tr =
     (case get_offer_ids srv tr of
        (Inl e, tr1) \<Rightarrow> (Inl e, tr1)
      | (Inr offer_ids, tr1) \<Rightarrow>
          (case create_stocks py watch_remnants offer_ids of
             Inl e \<Rightarrow> (Inl e, tr1)
           | Inr (stocks, rest) \<Rightarrow>
               (case submit_batches srv UpdateStocks stocks 100 tr1 of
                  (Inl e, tr2) \<Rightarrow> (Inl e, tr2)
                | (Inr u, tr2) \<Rightarrow> (Inr (filter (\<lambda>s. stock s \<noteq> 0) stocks, stocks), tr2))))"

text \<open>
  \<open>main\<close> of the Ozon script. Every exception is caught and printed; the report says
  which handler ran. The one list \<open>offer_ids\<close> goes to \<open>create_stocks\<close>, which
  mutates it, and then to \<open>create_prices\<close>.
\<close>

datatype report = Finished | TimedOut | ConnectionFailed | OtherError py_error

definition handler :: "py_error \<Rightarrow> report" where
  "handler e =
     (if e = ReadTimeout then TimedOut
      else if e = ConnectionError then ConnectionFailed
      else OtherError e)"

definition main ::
  "interpreter \<Rightarrow> (stock_update, price_update) server \<Rightarrow> (stock_update, price_update) call list
     \<Rightarrow> report \<times> (stock_update, price_update) call list" where
  "main py srv tr =
     (case get_offer_ids srv tr of
        (Inl e, tr1) \<Rightarrow> (handler e, tr1)
      | (Inr offer_ids, tr1) \<Rightarrow>
          (case download_stock srv tr1 of
             (Inl e, tr2) \<Rightarrow> (handler e, tr2)
           | (Inr watch_remnants, tr2) \<Rightarrow>
               (case create_stocks py watch_remnants offer_ids of
                  Inl e \<Rightarrow> (handler e, tr2)
                | Inr (stocks, offer_ids') \<Rightarrow>
                    (case submit_batches srv UpdateStocks stocks 100 tr2 of
                       (Inl e, tr3) \<Rightarrow> (handler e, tr3)
                     | (Inr u, tr3) \<Rightarrow>
                         (case create_prices watch_remnants offer_ids' of
                            Inl e \<Rightarrow> (handler e, tr3)
                          | Inr prices \<Rightarrow>
                              (case submit_batches srv UpdatePrice prices 900 tr3 of
                                 (Inl e, tr4) \<Rightarrow> (handler e, tr4)
                               | (Inr u', tr4) \<Rightarrow> (Finished, tr4)))))))"

text \<open>
  The bodies of \<open>upload_prices\<close> and \<open>upload_stocks\<close> of the Yandex Market script;
  \<open>date\<close> is the clock reading of \<open>create_stocks\<close>. In the last filter
  \<open>items[0]\<close> is read with \<open>hd\<close>: every entry built by \<open>sku_entry\<close> has exactly
  one item, so the read is never out of range.
\<close>

definition market_upload_prices ::
  "interpreter \<Rightarrow> (sku_update, offer_price) server \<Rightarrow> watch list \<Rightarrow> (sku_update, offer_price) call list
     \<Rightarrow> (py_error + offer_price list) \<times> (sku_update, offer_price) call list" where
  "market_upload_prices py srv watch_remnants tr =
     (case get_offer_ids srv tr of
        (Inl e, tr1) \<Rightarrow> (Inl e, tr1)
      | (Inr offer_ids, tr1) \<Rightarrow>
          (case market_create_prices py watch_remnants offer_ids of
             Inl e \<Rightarrow> (Inl e, tr1)
           | Inr prices \<Rightarrow>
               (case submit_batches srv UpdatePrice prices 500 tr1 of
                  (Inl e, tr2) \<Rightarrow> (Inl e, tr2)
                | (Inr u, tr2) \<Rightarrow> (Inr prices, tr2))))"

definition market_upload_stocks ::
  "interpreter \<Rightarrow> (sku_update, offer_price) server \<Rightarrow> watch list \<Rightarrow> string \<Rightarrow> string
     \<Rightarrow> (sku_update, offer_price) call list
     \<Rightarrow> (py_error + sku_update list \<times> sku_update list) \<times> (sku_update, offer_price) call list" where
  "market_upload_stocks py srv watch_remnants warehouse_id date tr =
     (case get_offer_ids srv tr of
        (Inl e, tr1) \<Rightarrow> (Inl e, tr1)
      | (Inr offer_ids, tr1) \<Rightarrow>
          (case market_create_stocks py watch_remnants offer_ids warehouse_id date of
             Inl e \<Rightarrow> (Inl e, tr1)
           | Inr (stocks, rest) \<Rightarrow>
               (case submit_batches srv UpdateStocks stocks 2000 tr1 of
                  (Inl e, tr2) \<Rightarrow> (Inl e, tr2)
                | (Inr u, tr2) \<Rightarrow>
                    (Inr (filter (\<lambda>s. count (hd (items s)) \<noteq> 0) stocks, stocks), tr2))))"

text \<open>
  Whether a call respects a stock ceiling and a price ceiling: a submitted batch is
  not empty and not longer than the ceiling of its kind, so a ceiling of 0 allows no
  submission of that kind.
\<close>

fun within_ceiling :: "nat \<Rightarrow> nat \<Rightarrow> ('s, 'p) call \<Rightarrow> bool" where
  "within_ceiling sc pc (UpdateStocks b) = (b \<noteq> [] \<and> length b \<le> sc)"
| "within_ceiling sc pc (UpdatePrice b) = (b \<noteq> [] \<and> length b \<le> pc)"
| "within_ceiling sc pc GetOfferIds = True"
| "within_ceiling sc pc DownloadStock = True"

section \<open>Normalisers and batches: lemmas and claims\<close>

text \<open>In every statement \<open>py\<close> is an arbitrary interpreter.\<close>

lemma split_chr_first:
  "\<exists>ps. split_chr sep s = takeWhile (\<lambda>c. c \<noteq> sep) s # ps"
  by (induction s) auto

lemma price_conversion_str:
  "price_conversion (PStr s) = Inr (filter is_digit (takeWhile (\<lambda>c. c \<noteq> CHR ''.'') s))"
proof -
  obtain ps where "split_chr (CHR ''.'') s = takeWhile (\<lambda>c. c \<noteq> CHR ''.'') s # ps"
    using split_chr_first by blast
  then show ?thesis
    by (simp add: first_item_def re_sub_non_digits_def)
qed

lemma py_int_str_empty: "py_int_str py [] = Inl ValueError"
  by (simp add: py_int_str_def long_from_string_def strip_def)

lemma py_slice_nonneg:
  assumes "0 \<le> i" and "i \<le> j"
  shows "py_slice xs i j = take (nat (j - i)) (drop (nat i) xs)"
proof (cases "nat i < length xs")
  case inside: True
  show ?thesis
  proof (cases "nat j \<le> length xs")
    case True
    with inside assms show ?thesis
      by (simp add: py_slice_def slice_bound_def Let_def min_def nat_diff_distrib)
  next
    case False
    with assms have "length (drop (nat i) xs) \<le> nat (j - i)"
      by (simp add: nat_diff_distrib)
    then have "take (nat (j - i)) (drop (nat i) xs) = drop (nat i) xs"
      by (rule take_all)
    with inside False assms show ?thesis
      by (simp add: py_slice_def slice_bound_def Let_def min_def)
  qed
next
  case False
  with assms show ?thesis
    by (simp add: py_slice_def slice_bound_def Let_def min_def)
qed

lemma concat_range_up:
  "0 < n \<Longrightarrow> 0 \<le> i \<Longrightarrow>
   concat (map (\<lambda>k. py_slice xs k (k + n)) (range_up i (int (length xs)) n)) = drop (nat i) xs"
proof (induction i "int (length xs)" n rule: range_up.induct)
  case (1 i step)
  show ?case
  proof (cases "i < int (length xs)")
    case True
    have split: "take (nat step) (drop (nat i) xs) @ drop (nat step + nat i) xs = drop (nat i) xs"
      by (metis append_take_drop_id drop_drop)
    have "nat (i + step) = nat step + nat i"
      using "1.prems" by (simp add: nat_add_distrib)
    with True 1 split show ?thesis
      by (subst range_up.simps) (simp add: py_slice_nonneg)
  next
    case False
    then show ?thesis
      using "1.prems" by (subst range_up.simps) simp
  qed
qed

lemma range_up_bounds:
  "k \<in> set (range_up i stop n) \<Longrightarrow> i \<le> k \<and> k < stop"
proof (induction i stop n rule: range_up.induct)
  case (1 i stop step)
  from "1.prems" have c: "0 < step \<and> i < stop"
    by (subst (asm) range_up.simps) (auto split: if_splits)
  with "1.prems" have "k = i \<or> k \<in> set (range_up (i + step) stop step)"
    by (subst (asm) range_up.simps) auto
  with c 1 show ?case by auto
qed

lemma range_up_butlast:
  "k \<in> set (butlast (range_up i stop n)) \<Longrightarrow> k + n < stop"
proof (induction i stop n rule: range_up.induct)
  case (1 i stop step)
  from "1.prems" have c: "0 < step \<and> i < stop"
    by (subst (asm) range_up.simps) (auto split: if_splits)
  then have eq: "range_up i stop step = i # range_up (i + step) stop step"
    by (subst range_up.simps) simp
  show ?case
  proof (cases "range_up (i + step) stop step = []")
    case True
    with eq "1.prems" show ?thesis by simp
  next
    case False
    then have "i + step < stop"
      by (subst (asm) range_up.simps) (auto split: if_splits)
    with False eq "1.prems" 1 c show ?thesis by auto
  qed
qed


lemma range_up_nonpos: "n \<le> 0 \<Longrightarrow> range_up i stop n = []"
  by (subst range_up.simps) simp

lemma range_down_empty: "stop \<ge> i \<Longrightarrow> range_down i stop n = []"
  by (subst range_down.simps) simp

lemma divide_list_pos:
  "0 < n \<Longrightarrow> divide_list xs n =
     Inr (map (\<lambda>k. py_slice xs k (k + n)) (range_up 0 (int (length xs)) n))"
  by (simp add: divide_list_def py_range_def)

lemma divide_list_concat:
  assumes "0 < n" and "divide_list xs n = Inr chunks"
  shows "concat chunks = xs"
  using assms concat_range_up [of n 0 xs] by (simp add: divide_list_pos)

lemma divide_list_chunk_le:
  assumes "0 < n" and "divide_list xs n = Inr chunks" and "c \<in> set chunks"
  shows "c \<noteq> [] \<and> int (length c) \<le> n"
proof -
  from assms obtain k where k: "k \<in> set (range_up 0 (int (length xs)) n)"
    and c: "c = py_slice xs k (k + n)"
    by (auto simp: divide_list_pos)
  from k have "0 \<le> k \<and> k < int (length xs)"
    by (rule range_up_bounds)
  with assms(1) c show ?thesis
    by (simp add: py_slice_nonneg) linarith
qed

lemma divide_list_chunk_full:
  assumes "0 < n" and "divide_list xs n = Inr chunks" and "c \<in> set (butlast chunks)"
  shows "int (length c) = n"
proof -
  from assms have "c \<in> set (map (\<lambda>k. py_slice xs k (k + n)) (butlast (range_up 0 (int (length xs)) n)))"
    by (auto simp: divide_list_pos map_butlast)
  then obtain k where k: "k \<in> set (butlast (range_up 0 (int (length xs)) n))"
    and c: "c = py_slice xs k (k + n)"
    by auto
  from k have "k + n < int (length xs)"
    by (rule range_up_butlast)
  moreover from k have "0 \<le> k"
    using range_up_bounds [of k 0 "int (length xs)" n] by (auto dest: in_set_butlastD)
  ultimately show ?thesis
    using assms(1) c by (simp add: py_slice_nonneg)
qed

lemmas int_eval =
  py_int_str_def long_from_string_def strip_def is_space_def is_digit_def digit_val_def
  too_many_digits_def continuation_def Let_def char_of_def bit_Suc_0_iff

lemma of_char_digit_char: "d < 10 \<Longrightarrow> (of_char (digit_char d) :: nat) = 48 + d"
  by (simp add: digit_char_def)

lemma is_digit_digit_char: "d < 10 \<Longrightarrow> is_digit (digit_char d)"
  by (simp add: is_digit_def of_char_digit_char)

lemma digit_val_digit_char: "d < 10 \<Longrightarrow> digit_val (digit_char d) = d"
  by (simp add: digit_val_def of_char_digit_char)

lemma is_digit_not_space: "is_digit c \<Longrightarrow> \<not> is_space c"
  by (auto simp: is_digit_def is_space_def)

lemma is_digit_not_sign: "is_digit c \<Longrightarrow> c \<noteq> CHR ''-'' \<and> c \<noteq> CHR ''+'' \<and> c \<noteq> CHR ''>''"
  by (auto simp: is_digit_def)

lemma is_digit_ascii: "is_digit c \<Longrightarrow> (of_char c :: nat) < 128"
  by (simp add: is_digit_def)

lemma str_nat_digits: "str_nat n \<noteq> [] \<and> (\<forall>c \<in> set (str_nat n). is_digit c)"
proof (induction n rule: str_nat.induct)
  case (1 n)
  show ?case
  proof (cases "n < 10")
    case True
    then show ?thesis
      by (subst (1 2) str_nat.simps) (simp add: is_digit_digit_char)
  next
    case False
    with 1 show ?thesis
      by (subst (1 2) str_nat.simps) (simp add: is_digit_digit_char)
  qed
qed

lemma digits_value_digits:
  "\<forall>c \<in> set s. is_digit c \<Longrightarrow> s \<noteq> [] \<Longrightarrow>
   digits_value p acc s = Some (foldl (\<lambda>a c. 10 * a + digit_val c) acc s)"
proof (induction s arbitrary: p acc)
  case Nil
  then show ?case by simp
next
  case (Cons c s)
  show ?case
  proof (cases "s = []")
    case True
    with Cons.prems show ?thesis by simp
  next
    case False
    from Cons.prems have "\<forall>c \<in> set s. is_digit c" by simp
    from Cons.IH [OF this False, of True "10 * acc + digit_val c"] Cons.prems
    show ?thesis by simp
  qed
qed

lemma digits_value_chars:
  "digits_value p acc s = Some n \<Longrightarrow> \<forall>c \<in> set s. is_digit c \<or> c = CHR ''_''"
  by (induction s arbitrary: p acc) (auto split: if_splits)

lemma str_nat_value: "foldl (\<lambda>a c. 10 * a + digit_val c) 0 (str_nat n) = n"
proof (induction n rule: str_nat.induct)
  case (1 n)
  show ?case
  proof (cases "n < 10")
    case True
    then show ?thesis
      by (subst str_nat.simps) (simp add: digit_val_digit_char)
  next
    case False
    with 1 show ?thesis
      by (subst str_nat.simps) (simp add: digit_val_digit_char)
  qed
qed

lemma strip_id:
  assumes "s \<noteq> []" and "\<not> is_space (hd s)" and "\<not> is_space (last s)"
  shows "strip s = s"
proof -
  from assms have "dropWhile is_space s = s"
    by (cases s) auto
  moreover from assms have "dropWhile is_space (rev s) = rev s"
    by (cases "rev s") (auto simp: hd_rev)
  ultimately show ?thesis
    by (simp add: strip_def)
qed

lemma dropWhile_keeps: "c \<in> set s \<Longrightarrow> \<not> P c \<Longrightarrow> c \<in> set (dropWhile P s)"
  by (induction s) auto

lemma strip_keeps: "c \<in> set s \<Longrightarrow> \<not> is_space c \<Longrightarrow> c \<in> set (strip s)"
  by (simp add: strip_def dropWhile_keeps)

text \<open>A run of digits: its value in base 10, unless it is longer than the bound.\<close>

lemma long_from_string_digits:
  assumes "\<forall>c \<in> set s. is_digit c" and "s \<noteq> []"
  shows "long_from_string py s =
           (if too_many_digits py (length s) then Inl ValueError
            else Inr (int (foldl (\<lambda>a c. 10 * a + digit_val c) 0 s)))"
proof -
  obtain c cs where s: "s = c # cs"
    using assms(2) by (cases s) auto
  from assms have "is_digit (hd s)" "is_digit (last s)"
    by auto
  then have "strip s = s"
    using assms(2) by (intro strip_id) (auto dest: is_digit_not_space)
  moreover have "c \<noteq> CHR ''-'' \<and> c \<noteq> CHR ''+''"
    using assms(1) s is_digit_not_sign by auto
  moreover have "digits_value False 0 s = Some (foldl (\<lambda>a c. 10 * a + digit_val c) 0 s)"
    using digits_value_digits [OF assms] .
  moreover have "filter is_digit s = s"
    using assms(1) by simp
  ultimately show ?thesis
    using s by (simp add: long_from_string_def)
qed

lemma long_from_string_minus_digits:
  assumes "\<forall>c \<in> set s. is_digit c" and "s \<noteq> []"
  shows "long_from_string py (CHR ''-'' # s) =
           (if too_many_digits py (length s) then Inl ValueError
            else Inr (- int (foldl (\<lambda>a c. 10 * a + digit_val c) 0 s)))"
proof -
  from assms have "is_digit (last s)"
    by auto
  then have "\<not> is_space (last (CHR ''-'' # s))"
    using assms(2) by (auto dest: is_digit_not_space)
  moreover have "\<not> is_space (CHR ''-'')"
    by (simp add: is_space_def)
  ultimately have "strip (CHR ''-'' # s) = CHR ''-'' # s"
    by (intro strip_id) auto
  moreover have "digits_value False 0 s = Some (foldl (\<lambda>a c. 10 * a + digit_val c) 0 s)"
    using digits_value_digits [OF assms] .
  moreover have "filter is_digit s = s"
    using assms(1) by simp
  ultimately show ?thesis
    by (simp add: long_from_string_def)
qed

lemma py_int_str_digits:
  assumes "\<forall>c \<in> set s. is_digit c" and "s \<noteq> []"
  shows "py_int_str py s =
           (if too_many_digits py (length s) then Inl ValueError
            else Inr (int (foldl (\<lambda>a c. 10 * a + digit_val c) 0 s)))"
proof -
  from assms(1) have "list_all (\<lambda>c. (of_char c :: nat) < 128) s"
    by (simp add: list_all_iff is_digit_ascii)
  then show ?thesis
    using long_from_string_digits [OF assms] by (simp add: py_int_str_def)
qed

lemma py_int_str_str_int:
  assumes "\<not> too_many_digits py (length (str_nat (nat \<bar>i\<bar>)))"
  shows "py_int_str py (str_int i) = Inr i"
proof (cases "i < 0")
  case True
  let ?s = "str_nat (nat (- i))"
  have d: "\<forall>c \<in> set ?s. is_digit c" and ne: "?s \<noteq> []"
    using str_nat_digits by auto
  from d have "list_all (\<lambda>c. (of_char c :: nat) < 128) (CHR ''-'' # ?s)"
    by (simp add: list_all_iff is_digit_ascii)
  moreover from True assms have "\<not> too_many_digits py (length ?s)"
    by simp
  ultimately show ?thesis
    using True long_from_string_minus_digits [OF d ne, of py] str_nat_value [of "nat (- i)"]
    by (simp add: py_int_str_def str_int_def)
next
  case False
  let ?s = "str_nat (nat i)"
  have d: "\<forall>c \<in> set ?s. is_digit c" and ne: "?s \<noteq> []"
    using str_nat_digits by auto
  from False assms have "\<not> too_many_digits py (length ?s)"
    by simp
  then show ?thesis
    using False py_int_str_digits [OF d ne, of py] str_nat_value [of "nat i"]
    by (simp add: str_int_def)
qed

lemma str_int_not_sentinel: "str_int i \<noteq> ''>10''"
proof
  assume a: "str_int i = ''>10''"
  show False
  proof (cases "i < 0")
    case True
    with a show False by (simp add: str_int_def)
  next
    case False
    with a have "CHR ''>'' \<in> set (str_nat (nat i))"
      by (simp add: str_int_def)
    then show False
      using str_nat_digits is_digit_not_sign by blast
  qed
qed

lemma str_int_one: "str_int i = ''1'' \<longleftrightarrow> i = 1"
proof
  assume a: "str_int i = ''1''"
  have "\<not> too_many_digits py (length (str_nat (nat \<bar>i\<bar>)))" for py
  proof (cases "i < 0")
    case True
    with a show ?thesis by (simp add: str_int_def)
  next
    case False
    with a have "str_nat (nat \<bar>i\<bar>) = ''1''"
      by (simp add: str_int_def)
    then show ?thesis
      by (simp add: too_many_digits_def)
  qed
  from py_int_str_str_int [OF this] a
  have "py_int_str \<lparr>int_max_str_digits = 0, unicode_isspace = \<lambda>ch. False,
          unicode_todecimal = \<lambda>ch. None\<rparr> ''1'' = Inr i"
    by metis
  then show "i = 1"
    by (simp add: int_eval)
next
  have "str_int 1 = ''1''"
    by code_simp
  moreover assume "i = 1"
  ultimately show "str_int i = ''1''"
    by simp
qed

lemma stock_of_count_str_int:
  assumes "\<not> too_many_digits py (length (str_nat (nat \<bar>i\<bar>)))"
  shows "stock_of_count py (PStr (str_int i)) = Inr (if i = 1 then 0 else i)"
  using py_int_str_str_int [OF assms] str_int_not_sentinel [of i] str_int_one [of i]
  by (simp add: stock_of_count_def)

lemma py_int_str_other_character:
  assumes "list_all (\<lambda>c. (of_char c :: nat) < 128) s" and "c \<in> set s"
    and "\<not> is_digit c" and "\<not> is_space c"
    and "c \<noteq> CHR ''+''" and "c \<noteq> CHR ''-''" and "c \<noteq> CHR ''_''"
  shows "py_int_str py s = Inl ValueError"
proof (rule ccontr)
  assume "py_int_str py s \<noteq> Inl ValueError"
  with assms(1) have ok: "long_from_string py s \<noteq> Inl ValueError"
    by (simp add: py_int_str_def)
  then obtain c0 cs where st: "strip s = c0 # cs"
    by (cases "strip s") (auto simp: long_from_string_def)
  let ?ds = "if c0 = CHR ''-'' \<or> c0 = CHR ''+'' then cs else c0 # cs"
  from ok st obtain n where "digits_value False 0 ?ds = Some n"
    by (cases "digits_value False 0 ?ds") (auto simp: long_from_string_def Let_def)
  from digits_value_chars [OF this] have only: "\<forall>x \<in> set ?ds. is_digit x \<or> x = CHR ''_''" .
  from strip_keeps [OF assms(2,4)] st have "c = c0 \<or> c \<in> set cs"
    by simp
  with assms(5,6) have "c \<in> set ?ds"
    by auto
  with only assms(3,7) show False
    by blast
qed

lemma py_int_str_too_long:
  assumes "\<forall>c \<in> set s. is_digit c" and "too_many_digits py (length s)"
  shows "py_int_str py s = Inl ValueError"
proof -
  from assms(2) have "s \<noteq> []"
    by (auto simp: too_many_digits_def)
  from py_int_str_digits [OF assms(1) this] assms(2) show ?thesis
    by simp
qed

text \<open>
  Claim C3. The quantity token \<open>">10"\<close> becomes 100 and the token \<open>"1"\<close> becomes 0, by
  exact match; every other string token is handed to \<open>int\<close>, which reads it in base
  10: the decimal numeral of an integer other than 1 becomes that integer, unless it
  has more digits than the interpreter converts; an ASCII token with a character that
  is no digit, sign, underscore or white space raises \<open>ValueError\<close>, the format error
  of the scripts, and so does a run of digits longer than the bound. \<open>"7"\<close> becomes 7
  and \<open>"abc"\<close> fails; \<open>" 1"\<close> is not the token \<open>"1"\<close> and becomes 1; the control
  character \<open>0x1C\<close> is not white space for \<open>int\<close>, so the token fails; the
  Arabic-Indic digit seven becomes 7 when the Unicode database says so.
\<close>

theorem stock_of_count_policy:
  "stock_of_count py (PStr ''>10'') = Inr 100
   \<and> stock_of_count py (PStr ''1'') = Inr 0
   \<and> (\<forall>s. s \<noteq> ''>10'' \<and> s \<noteq> ''1'' \<longrightarrow> stock_of_count py (PStr s) = py_int_str py s)
   \<and> (\<forall>i. \<not> too_many_digits py (length (str_nat (nat \<bar>i\<bar>)))
         \<longrightarrow> stock_of_count py (PStr (str_int i)) = Inr (if i = 1 then 0 else i))
   \<and> (\<forall>s. s \<noteq> ''>10'' \<and> list_all (\<lambda>c. (of_char c :: nat) < 128) s
           \<and> (\<exists>c \<in> set s. \<not> is_digit c \<and> \<not> is_space c
                 \<and> c \<noteq> CHR ''+'' \<and> c \<noteq> CHR ''-'' \<and> c \<noteq> CHR ''_'')
         \<longrightarrow> stock_of_count py (PStr s) = Inl ValueError)
   \<and> (\<forall>s. (\<forall>c \<in> set s. is_digit c) \<and> too_many_digits py (length s)
         \<longrightarrow> stock_of_count py (PStr s) = Inl ValueError)
   \<and> stock_of_count py (PStr ''7'') = Inr 7
   \<and> stock_of_count py (PStr ''abc'') = Inl ValueError
   \<and> stock_of_count py (PStr '' 1'') = Inr 1
   \<and> stock_of_count py (PStr [CHR 0x1C, CHR ''7'']) = Inl ValueError
   \<and> (unicode_todecimal py 1639 = Some 7 \<and> \<not> unicode_isspace py 1639
         \<longrightarrow> stock_of_count py (PStr [CHR 0xD9, CHR 0xA7]) = Inr 7)"
proof -
  have other: "stock_of_count py (PStr s) = py_int_str py s" if "s \<noteq> ''>10''" "s \<noteq> ''1''" for s
    using that by (simp add: stock_of_count_def)
  have bad: "stock_of_count py (PStr s) = Inl ValueError"
    if "s \<noteq> ''>10''" "list_all (\<lambda>c. (of_char c :: nat) < 128) s"
      "\<exists>c \<in> set s. \<not> is_digit c \<and> \<not> is_space c
                 \<and> c \<noteq> CHR ''+'' \<and> c \<noteq> CHR ''-'' \<and> c \<noteq> CHR ''_''" for s
  proof -
    from that(3) have "s \<noteq> ''1''"
      by (auto simp: is_digit_def)
    with that(1) have "stock_of_count py (PStr s) = py_int_str py s"
      by (rule other)
    with that(2,3) show ?thesis
      using py_int_str_other_character [of s _ py] by auto
  qed
  have long: "stock_of_count py (PStr s) = Inl ValueError"
    if "\<forall>c \<in> set s. is_digit c" "too_many_digits py (length s)" for s
  proof -
    from that(2) have "s \<noteq> ''>10'' \<and> s \<noteq> ''1''"
      by (auto simp: too_many_digits_def)
    then show ?thesis
      using other py_int_str_too_long [OF that] by simp
  qed
  have c1: "stock_of_count py (PStr ''>10'') = Inr 100"
    by (simp add: stock_of_count_def)
  have c2: "stock_of_count py (PStr ''1'') = Inr 0"
    by (simp add: stock_of_count_def)
  have c3: "\<forall>s. s \<noteq> ''>10'' \<and> s \<noteq> ''1'' \<longrightarrow> stock_of_count py (PStr s) = py_int_str py s"
    using other by simp
  have c4: "\<forall>i. \<not> too_many_digits py (length (str_nat (nat \<bar>i\<bar>)))
         \<longrightarrow> stock_of_count py (PStr (str_int i)) = Inr (if i = 1 then 0 else i)"
    using stock_of_count_str_int by simp
  have c5: "\<forall>s. s \<noteq> ''>10'' \<and> list_all (\<lambda>c. (of_char c :: nat) < 128) s
           \<and> (\<exists>c \<in> set s. \<not> is_digit c \<and> \<not> is_space c
                 \<and> c \<noteq> CHR ''+'' \<and> c \<noteq> CHR ''-'' \<and> c \<noteq> CHR ''_'')
         \<longrightarrow> stock_of_count py (PStr s) = Inl ValueError"
    using bad by (intro allI impI) (elim conjE, rule bad)
  have c6: "\<forall>s. (\<forall>c \<in> set s. is_digit c) \<and> too_many_digits py (length s)
         \<longrightarrow> stock_of_count py (PStr s) = Inl ValueError"
    using long by (intro allI impI) (elim conjE, rule long)
  have c7: "stock_of_count py (PStr ''7'') = Inr 7"
    by (simp add: stock_of_count_def int_eval)
  have c8: "stock_of_count py (PStr ''abc'') = Inl ValueError"
    by (simp add: stock_of_count_def int_eval)
  have c9: "stock_of_count py (PStr '' 1'') = Inr 1"
    by (simp add: stock_of_count_def int_eval)
  have c10: "stock_of_count py (PStr [CHR 0x1C, CHR ''7'']) = Inl ValueError"
    by (simp add: stock_of_count_def int_eval)
  have c11: "unicode_todecimal py 1639 = Some 7 \<and> \<not> unicode_isspace py 1639
         \<longrightarrow> stock_of_count py (PStr [CHR 0xD9, CHR 0xA7]) = Inr 7"
    by (simp add: stock_of_count_def int_eval)
  show ?thesis
    by (intro conjI) (rule c1, rule c2, rule c3, rule c4, rule c5, rule c6, rule c7, rule c8,
        rule c9, rule c10, rule c11)
qed

theorem stock_of_count_policy_witness:
  "''12'' \<noteq> ''>10'' \<and> ''12'' \<noteq> ''1''
   \<and> stock_of_count
        \<lparr>int_max_str_digits = 4300, unicode_isspace = \<lambda>ch. False, unicode_todecimal = \<lambda>ch. None\<rparr>
        (PStr ''12'') = Inr 12"
proof -
  have "py_int_str
          \<lparr>int_max_str_digits = 4300, unicode_isspace = \<lambda>ch. False, unicode_todecimal = \<lambda>ch. None\<rparr>
          ''12'' = Inr 12"
    by (simp add: int_eval)
  with stock_of_count_policy
         [of "\<lparr>int_max_str_digits = 4300, unicode_isspace = \<lambda>ch. False,
               unicode_todecimal = \<lambda>ch. None\<rparr>"]
  show ?thesis by simp
qed

text \<open>
  Claim C4. \<open>price_conversion\<close> keeps the ASCII digits of the part of the string before
  the first \<open>.\<close>; without a \<open>.\<close> the digits of the whole string are kept. The first
  example is \<open>5'990.00\<close> followed by a blank, the UTF-8 bytes of the Cyrillic currency
  suffix and a final \<open>.\<close>; \<open>market_price_value\<close> is the same result read as an integer.
\<close>

theorem price_conversion_algorithm:
  "price_conversion (PStr s) = Inr (filter is_digit (takeWhile (\<lambda>c. c \<noteq> CHR ''.'') s))
   \<and> (CHR ''.'' \<notin> set s \<longrightarrow> price_conversion (PStr s) = Inr (filter is_digit s))
   \<and> price_conversion
        (PStr (''5'990.00 '' @ [CHR 0xD1, CHR 0x80, CHR 0xD1, CHR 0x83, CHR 0xD0, CHR 0xB1] @ ''.''))
       = Inr ''5990''
   \<and> market_price_value py
        (PStr (''5'990.00 '' @ [CHR 0xD1, CHR 0x80, CHR 0xD1, CHR 0x83, CHR 0xD0, CHR 0xB1] @ ''.''))
       = Inr 5990
   \<and> price_conversion (PStr ''1,234.50'') = Inr ''1234''
   \<and> market_price_value py (PStr ''1,234.50'') = Inr 1234
   \<and> price_conversion (PStr ''100'') = Inr ''100''
   \<and> market_price_value py (PStr ''100'') = Inr 100"
proof -
  have no_dot: "CHR ''.'' \<notin> set s \<Longrightarrow> takeWhile (\<lambda>c. c \<noteq> CHR ''.'') s = s"
    by (induction s) auto
  show ?thesis
    unfolding market_price_value_def price_conversion_str
    by (auto simp: no_dot int_eval)
qed

theorem price_conversion_algorithm_witness:
  "CHR ''.'' \<notin> set ''12 r'' \<and> price_conversion (PStr ''12 r'') = Inr ''12''"
  using price_conversion_algorithm [of "''12 r''"] by (simp add: is_digit_def)

text \<open>
  Claim C5 as stated does not hold for \<open>price_conversion\<close>: on \<open>".99"\<close> it returns
  the empty string and raises nothing.
\<close>

theorem price_conversion_dot99_returns:
  "price_conversion (PStr ''.99'') = Inr []"
  by (simp add: first_item_def re_sub_non_digits_def)

text \<open>
  Claim C5, amended. When no digit stands before the first \<open>.\<close>, \<open>price_conversion\<close>
  returns the empty string without failing; the failure is raised only where the
  Yandex Market script applies \<open>int\<close> to that result, as a \<open>ValueError\<close>.
\<close>

theorem price_conversion_no_digits:
  assumes "\<forall>c \<in> set (takeWhile (\<lambda>c. c \<noteq> CHR ''.'') s). \<not> is_digit c"
  shows "price_conversion (PStr s) = Inr [] \<and> market_price_value py (PStr s) = Inl ValueError"
proof -
  from assms have "filter is_digit (takeWhile (\<lambda>c. c \<noteq> CHR ''.'') s) = []"
    by (simp add: filter_empty_conv)
  then show ?thesis
    unfolding market_price_value_def price_conversion_str
    by (simp add: py_int_str_empty)
qed

theorem price_conversion_no_digits_witness:
  "takeWhile (\<lambda>c. c \<noteq> CHR ''.'') ''.99'' = []
   \<and> price_conversion (PStr ''.99'') = Inr []
   \<and> market_price_value
        \<lparr>int_max_str_digits = 4300, unicode_isspace = \<lambda>ch. False, unicode_todecimal = \<lambda>ch. None\<rparr>
        (PStr ''.99'') = Inl ValueError"
  using price_conversion_no_digits
          [of "''.99''" "\<lparr>int_max_str_digits = 4300, unicode_isspace = \<lambda>ch. False,
                          unicode_todecimal = \<lambda>ch. None\<rparr>"]
  by simp

text \<open>
  Claim C6. For a positive size \<open>n\<close>, \<open>list(divide(xs, n))\<close> returns chunks whose
  concatenation is \<open>xs\<close>; every chunk but the last has length exactly \<open>n\<close>, no chunk is
  empty or longer than \<open>n\<close>, and the empty list has no chunks.
\<close>

theorem divide_list_partition:
  assumes "0 < n"
  shows "\<exists>chunks. divide_list xs n = Inr chunks
           \<and> concat chunks = xs
           \<and> (\<forall>c \<in> set (butlast chunks). int (length c) = n)
           \<and> (\<forall>c \<in> set chunks. c \<noteq> [] \<and> int (length c) \<le> n)
           \<and> divide_list ([] :: 'a list) n = Inr []"
proof -
  obtain chunks where d: "divide_list xs n = Inr chunks"
    using assms by (simp add: divide_list_pos)
  have "divide_list ([] :: 'a list) n = Inr []"
    using assms by (simp add: divide_list_pos) (subst range_up.simps, simp)
  with d assms show ?thesis
    using divide_list_concat [OF assms d] divide_list_chunk_full [OF assms d]
      divide_list_chunk_le [OF assms d]
    by blast
qed

theorem divide_list_partition_witness:
  "(0::int) < 2 \<and> divide_list [1, 2, 3, 4, 5 :: nat] 2 = Inr [[1, 2], [3, 4], [5]]"
proof -
  have "divide_list [1, 2, 3, 4, 5 :: nat] 2 = Inr [[1, 2], [3, 4], [5]]"
    by code_simp
  with divide_list_partition [of 2 "[1, 2, 3, 4, 5 :: nat]"] show ?thesis by simp
qed

text \<open>
  Claim C7 as stated does not hold for a negative size: \<open>list(divide([1, 2, 3], -1))\<close>
  is the empty list and nothing is raised.
\<close>

theorem divide_list_negative_returns:
  "divide_list [1, 2, 3 :: nat] (- 1) = Inr []"
  by (simp add: divide_list_def py_range_def range_down_empty)

text \<open>
  Claim C7, amended. Size 0 fails with the \<open>ValueError\<close> of \<open>range\<close>; a negative size
  does not fail and yields no chunk at all.
\<close>

theorem divide_list_nonpositive:
  "divide_list xs 0 = Inl ValueError \<and> (n < 0 \<longrightarrow> divide_list xs n = Inr [])"
  by (simp add: divide_list_def py_range_def range_down_empty)

theorem divide_list_nonpositive_witness:
  "(- 3 :: int) < 0 \<and> divide_list ''abc'' 0 = Inl ValueError \<and> divide_list ''abc'' (- 3) = Inr []"
  using divide_list_nonpositive [of "''abc''" "- 3"] by simp

section \<open>Reconciliation: lemmas and claims\<close>

lemma create_stocks_loop_ids:
  "create_stocks_loop py ws ids acc = Inr (st, rest) \<Longrightarrow>
   \<exists>m. st = acc @ m \<and> mset (map offer_id m) + mset rest = mset ids"
proof (induction ws arbitrary: ids acc)
  case Nil
  then show ?case by simp
next
  case (Cons w ws)
  show ?case
  proof (cases "py_str (Kod w) \<in> set ids")
    case True
    with Cons.prems obtain n where n: "stock_of_count py (Kolichestvo w) = Inr n"
      and rec: "create_stocks_loop py ws (remove1 (py_str (Kod w)) ids)
                  (acc @ [\<lparr>offer_id = py_str (Kod w), stock = n\<rparr>]) = Inr (st, rest)"
      by (auto split: sum.splits)
    from Cons.IH [OF rec] obtain m where
      m: "st = (acc @ [\<lparr>offer_id = py_str (Kod w), stock = n\<rparr>]) @ m"
      and ms: "mset (map offer_id m) + mset rest = mset (remove1 (py_str (Kod w)) ids)"
      by blast
    from True ms have
      "mset (map offer_id (\<lparr>offer_id = py_str (Kod w), stock = n\<rparr> # m)) + mset rest = mset ids"
      by simp
    with m show ?thesis
      by (metis append_Cons append_Nil append_assoc)
  next
    case False
    with Cons show ?thesis by simp
  qed
qed

lemma create_stocks_loop_quantities:
  "create_stocks_loop py ws ids acc = Inr (st, rest) \<Longrightarrow> distinct ids \<Longrightarrow>
   \<exists>m. st = acc @ m
     \<and> (\<forall>u \<in> set m. \<exists>w. find (\<lambda>w. py_str (Kod w) = offer_id u) ws = Some w
                        \<and> stock_of_count py (Kolichestvo w) = Inr (stock u))
     \<and> (\<forall>i \<in> set rest. \<forall>w \<in> set ws. py_str (Kod w) \<noteq> i)
     \<and> set (map offer_id m) \<subseteq> set ids \<and> set rest \<subseteq> set ids"
proof (induction ws arbitrary: ids acc)
  case Nil
  then show ?case by simp
next
  case (Cons w ws)
  let ?c = "py_str (Kod w)"
  show ?case
  proof (cases "?c \<in> set ids")
    case True
    with Cons.prems obtain n where n: "stock_of_count py (Kolichestvo w) = Inr n"
      and rec: "create_stocks_loop py ws (remove1 ?c ids) (acc @ [\<lparr>offer_id = ?c, stock = n\<rparr>])
                  = Inr (st, rest)"
      by (auto split: sum.splits)
    from Cons.prems have d: "distinct (remove1 ?c ids)" by simp
    from Cons.prems have s: "set (remove1 ?c ids) = set ids - {?c}" by simp
    from Cons.IH [OF rec d] obtain m where
      m: "st = (acc @ [\<lparr>offer_id = ?c, stock = n\<rparr>]) @ m"
      and q: "\<forall>u \<in> set m. \<exists>w. find (\<lambda>w. py_str (Kod w) = offer_id u) ws = Some w
                        \<and> stock_of_count py (Kolichestvo w) = Inr (stock u)"
      and r: "\<forall>i \<in> set rest. \<forall>w \<in> set ws. py_str (Kod w) \<noteq> i"
      and sub: "set (map offer_id m) \<subseteq> set (remove1 ?c ids)" "set rest \<subseteq> set (remove1 ?c ids)"
      by blast
    let ?m = "\<lparr>offer_id = ?c, stock = n\<rparr> # m"
    have "st = acc @ ?m" using m by simp
    moreover have "\<forall>u \<in> set ?m. \<exists>w'. find (\<lambda>w. py_str (Kod w) = offer_id u) (w # ws) = Some w'
                        \<and> stock_of_count py (Kolichestvo w') = Inr (stock u)"
      using q n sub s by auto
    moreover have "\<forall>i \<in> set rest. \<forall>w' \<in> set (w # ws). py_str (Kod w') \<noteq> i"
      using r sub s by auto
    moreover have "set (map offer_id ?m) \<subseteq> set ids \<and> set rest \<subseteq> set ids"
      using sub s True by auto
    ultimately show ?thesis by blast
  next
    case False
    with Cons.prems have rec: "create_stocks_loop py ws ids acc = Inr (st, rest)" by simp
    from Cons.IH [OF rec Cons.prems(2)] obtain m where
      m: "st = acc @ m"
      and q: "\<forall>u \<in> set m. \<exists>w. find (\<lambda>w. py_str (Kod w) = offer_id u) ws = Some w
                        \<and> stock_of_count py (Kolichestvo w) = Inr (stock u)"
      and r: "\<forall>i \<in> set rest. \<forall>w \<in> set ws. py_str (Kod w) \<noteq> i"
      and sub: "set (map offer_id m) \<subseteq> set ids" "set rest \<subseteq> set ids"
      by blast
    have "\<forall>u \<in> set m. \<exists>w'. find (\<lambda>w. py_str (Kod w) = offer_id u) (w # ws) = Some w'
                        \<and> stock_of_count py (Kolichestvo w') = Inr (stock u)"
      using q sub False by auto
    moreover have "\<forall>i \<in> set rest. \<forall>w' \<in> set (w # ws). py_str (Kod w') \<noteq> i"
      using r sub False by auto
    ultimately show ?thesis using m sub by blast
  qed
qed

lemma market_create_stocks_loop_eq:
  "market_create_stocks_loop py wh d ws ids (map (\<lambda>u. sku_entry wh d (offer_id u) (stock u)) acc) =
   map_sum id (map_prod (map (\<lambda>u. sku_entry wh d (offer_id u) (stock u))) id)
     (create_stocks_loop py ws ids acc)"
proof (induction ws arbitrary: ids acc)
  case Nil
  then show ?case by simp
next
  case (Cons w ws)
  show ?case
  proof (cases "stock_of_count py (Kolichestvo w)")
    case (Inl e)
    then show ?thesis using Cons.IH by simp
  next
    case (Inr n)
    then show ?thesis
      using Cons.IH [of ids acc]
        Cons.IH [of "remove1 (py_str (Kod w)) ids" "acc @ [\<lparr>offer_id = py_str (Kod w), stock = n\<rparr>]"]
      by simp
  qed
qed

lemma market_create_stocks_eq:
  "market_create_stocks py ws ids wh d =
   map_sum id (map_prod (map (\<lambda>u. sku_entry wh d (offer_id u) (stock u))) id)
     (create_stocks py ws ids)"
proof -
  have "market_create_stocks_loop py wh d ws ids [] =
        map_sum id (map_prod (map (\<lambda>u. sku_entry wh d (offer_id u) (stock u))) id)
          (create_stocks_loop py ws ids [])"
    using market_create_stocks_loop_eq [of py wh d ws ids "[]"] by simp
  then show ?thesis
    by (cases "create_stocks_loop py ws ids []")
       (auto simp: market_create_stocks_def create_stocks_def)
qed

lemma create_stocks_loop_returns:
  "\<forall>w \<in> set ws. py_str (Kod w) \<in> set ids \<longrightarrow> (\<exists>n. stock_of_count py (Kolichestvo w) = Inr n) \<Longrightarrow>
   \<exists>r. create_stocks_loop py ws ids acc = Inr r"
proof (induction ws arbitrary: ids acc)
  case Nil
  then show ?case by simp
next
  case (Cons w ws)
  show ?case
  proof (cases "py_str (Kod w) \<in> set ids")
    case True
    with Cons.prems obtain n where n: "stock_of_count py (Kolichestvo w) = Inr n"
      by auto
    have "\<forall>w' \<in> set ws. py_str (Kod w') \<in> set (remove1 (py_str (Kod w)) ids)
            \<longrightarrow> (\<exists>n. stock_of_count py (Kolichestvo w') = Inr n)"
      using Cons.prems by (meson list.set_intros(2) notin_set_remove1)
    from Cons.IH [OF this] True n show ?thesis by simp
  next
    case False
    with Cons show ?thesis by simp
  qed
qed

lemma create_prices_loop_ids:
  "create_prices_loop ws ids acc = Inr ps \<Longrightarrow>
   \<exists>m. ps = acc @ m
     \<and> map price_offer_id m = filter (\<lambda>c. c \<in> set ids) (map (\<lambda>w. py_str (Kod w)) ws)"
proof (induction ws arbitrary: acc)
  case Nil
  then show ?case by simp
next
  case (Cons w ws)
  show ?case
  proof (cases "py_str (Kod w) \<in> set ids")
    case True
    with Cons.prems obtain p where
      rec: "create_prices_loop ws ids (acc @ [ozon_price (py_str (Kod w)) p]) = Inr ps"
      by (auto split: sum.splits)
    from Cons.IH [OF rec] obtain m where "ps = (acc @ [ozon_price (py_str (Kod w)) p]) @ m"
      and "map price_offer_id m = filter (\<lambda>c. c \<in> set ids) (map (\<lambda>w. py_str (Kod w)) ws)"
      by blast
    with True have "ps = acc @ (ozon_price (py_str (Kod w)) p # m)
      \<and> map price_offer_id (ozon_price (py_str (Kod w)) p # m)
          = filter (\<lambda>c. c \<in> set ids) (map (\<lambda>w. py_str (Kod w)) (w # ws))"
      by (simp add: ozon_price_def)
    then show ?thesis by blast
  next
    case False
    with Cons show ?thesis by simp
  qed
qed

lemma market_create_prices_loop_ids:
  "market_create_prices_loop py ws ids acc = Inr ps \<Longrightarrow>
   \<exists>m. ps = acc @ m
     \<and> map offer_price_id m = filter (\<lambda>c. c \<in> set ids) (map (\<lambda>w. py_str (Kod w)) ws)"
proof (induction ws arbitrary: acc)
  case Nil
  then show ?case by simp
next
  case (Cons w ws)
  show ?case
  proof (cases "py_str (Kod w) \<in> set ids")
    case True
    with Cons.prems obtain v where
      rec: "market_create_prices_loop py ws ids (acc @ [market_price (py_str (Kod w)) v]) = Inr ps"
      by (auto split: sum.splits)
    from Cons.IH [OF rec] obtain m where "ps = (acc @ [market_price (py_str (Kod w)) v]) @ m"
      and "map offer_price_id m = filter (\<lambda>c. c \<in> set ids) (map (\<lambda>w. py_str (Kod w)) ws)"
      by blast
    with True have "ps = acc @ (market_price (py_str (Kod w)) v # m)
      \<and> map offer_price_id (market_price (py_str (Kod w)) v # m)
          = filter (\<lambda>c. c \<in> set ids) (map (\<lambda>w. py_str (Kod w)) (w # ws))"
      by (simp add: market_price_def)
    then show ?thesis by blast
  next
    case False
    with Cons show ?thesis by simp
  qed
qed

lemma create_stocks_loop_matched:
  "create_stocks_loop py ws ids acc = Inr (st, rest) \<Longrightarrow> distinct (map (\<lambda>w. py_str (Kod w)) ws) \<Longrightarrow>
   \<exists>m. st = acc @ m
     \<and> map offer_id m = filter (\<lambda>c. c \<in> set ids) (map (\<lambda>w. py_str (Kod w)) ws)"
proof (induction ws arbitrary: ids acc)
  case Nil
  then show ?case by simp
next
  case (Cons w ws)
  let ?c = "py_str (Kod w)"
  from Cons.prems have d: "distinct (map (\<lambda>w. py_str (Kod w)) ws)"
    and fresh: "?c \<notin> set (map (\<lambda>w. py_str (Kod w)) ws)"
    by simp_all
  show ?case
  proof (cases "?c \<in> set ids")
    case True
    with Cons.prems obtain n where
      rec: "create_stocks_loop py ws (remove1 ?c ids) (acc @ [\<lparr>offer_id = ?c, stock = n\<rparr>])
              = Inr (st, rest)"
      by (auto split: sum.splits)
    from Cons.IH [OF rec d] obtain m where m: "st = (acc @ [\<lparr>offer_id = ?c, stock = n\<rparr>]) @ m"
      and f: "map offer_id m
                = filter (\<lambda>c. c \<in> set (remove1 ?c ids)) (map (\<lambda>w. py_str (Kod w)) ws)"
      by blast
    have "filter (\<lambda>c. c \<in> set (remove1 ?c ids)) (map (\<lambda>w. py_str (Kod w)) ws)
            = filter (\<lambda>c. c \<in> set ids) (map (\<lambda>w. py_str (Kod w)) ws)"
      using fresh by (intro filter_cong refl) (metis in_set_remove1)
    with True m f have "st = acc @ (\<lparr>offer_id = ?c, stock = n\<rparr> # m)
      \<and> map offer_id (\<lparr>offer_id = ?c, stock = n\<rparr> # m)
          = filter (\<lambda>c. c \<in> set ids) (map (\<lambda>w. py_str (Kod w)) (w # ws))"
      by simp
    then show ?thesis by blast
  next
    case False
    with Cons.prems have rec: "create_stocks_loop py ws ids acc = Inr (st, rest)" by simp
    from Cons.IH [OF rec d] False show ?thesis by simp
  qed
qed

lemma create_prices_loop_unmatched:
  "\<forall>w \<in> set ws. py_str (Kod w) \<notin> set ids \<Longrightarrow> create_prices_loop ws ids acc = Inr acc"
  by (induction ws) auto

lemma create_stocks_split:
  "create_stocks py ws ids = Inr (stocks, rest) \<Longrightarrow>
   \<exists>m. create_stocks_loop py ws ids [] = Inr (m, rest)
     \<and> stocks = m @ map (\<lambda>i. \<lparr>offer_id = i, stock = 0\<rparr>) rest"
  by (auto simp: create_stocks_def split: sum.splits)

lemma stocks_cover_catalog:
  assumes "distinct offer_ids" and "create_stocks py ws offer_ids = Inr (stocks, rest)"
  shows "mset (map offer_id stocks) = mset offer_ids
       \<and> distinct (map offer_id stocks)
       \<and> (\<forall>u \<in> set stocks.
            case find (\<lambda>w. py_str (Kod w) = offer_id u) ws of
              Some w \<Rightarrow> stock_of_count py (Kolichestvo w) = Inr (stock u)
            | None \<Rightarrow> stock u = 0)"
proof -
  from assms(2) obtain m where loop: "create_stocks_loop py ws offer_ids [] = Inr (m, rest)"
    and st: "stocks = m @ map (\<lambda>i. \<lparr>offer_id = i, stock = 0\<rparr>) rest"
    using create_stocks_split by blast
  from create_stocks_loop_ids [OF loop] have ms: "mset (map offer_id m) + mset rest = mset offer_ids"
    by simp
  have ids: "mset (map offer_id stocks) = mset offer_ids"
    using ms st by (simp add: comp_def)
  then have dist: "distinct (map offer_id stocks)"
    using assms(1) by (metis mset_eq_imp_distinct_iff)
  from create_stocks_loop_quantities [OF loop assms(1)] have
    q: "\<forall>u \<in> set m. \<exists>w. find (\<lambda>w. py_str (Kod w) = offer_id u) ws = Some w
                        \<and> stock_of_count py (Kolichestvo w) = Inr (stock u)"
    and r: "\<forall>i \<in> set rest. \<forall>w \<in> set ws. py_str (Kod w) \<noteq> i"
    by auto
  have "\<forall>u \<in> set stocks.
            case find (\<lambda>w. py_str (Kod w) = offer_id u) ws of
              Some w \<Rightarrow> stock_of_count py (Kolichestvo w) = Inr (stock u)
            | None \<Rightarrow> stock u = 0"
  proof
    fix u assume "u \<in> set stocks"
    then consider "u \<in> set m" | i where "i \<in> set rest" "u = \<lparr>offer_id = i, stock = 0\<rparr>"
      using st by auto
    then show "case find (\<lambda>w. py_str (Kod w) = offer_id u) ws of
              Some w \<Rightarrow> stock_of_count py (Kolichestvo w) = Inr (stock u)
            | None \<Rightarrow> stock u = 0"
    proof cases
      case 1
      with q show ?thesis by fastforce
    next
      case 2
      with r have "find (\<lambda>w. py_str (Kod w) = offer_id u) ws = None"
        by (auto simp: find_None_iff)
      with 2 show ?thesis by simp
    qed
  qed
  with ids dist show ?thesis by blast
qed

lemma create_stocks_returns:
  assumes "\<forall>w \<in> set ws. py_str (Kod w) \<in> set ids \<longrightarrow> (\<exists>n. stock_of_count py (Kolichestvo w) = Inr n)"
  shows "\<exists>stocks rest. create_stocks py ws ids = Inr (stocks, rest)"
proof -
  from assms obtain r where "create_stocks_loop py ws ids [] = Inr r"
    using create_stocks_loop_returns by blast
  then show ?thesis
    by (cases r) (simp add: create_stocks_def)
qed

text \<open>
  Claim C1. For a catalog list with pairwise distinct offer ids, \<open>create_stocks\<close>
  returns whenever the quantity of every feed record whose code is in the catalog can
  be normalised. Whenever it returns, the offer ids of its stock list are those of the
  catalog, each exactly once; an id that some feed record carries has the normalised
  quantity of the first such record, every other id has stock 0. The Yandex Market
  function returns the same list in its own record layout.
\<close>

theorem create_stocks_complete:
  assumes "distinct offer_ids"
  shows
    "((\<forall>w \<in> set ws. py_str (Kod w) \<in> set offer_ids
          \<longrightarrow> (\<exists>n. stock_of_count py (Kolichestvo w) = Inr n))
        \<longrightarrow> (\<exists>stocks rest. create_stocks py ws offer_ids = Inr (stocks, rest)))
     \<and> (create_stocks py ws offer_ids = Inr (stocks, rest) \<longrightarrow>
          mset (map offer_id stocks) = mset offer_ids
          \<and> distinct (map offer_id stocks)
          \<and> (\<forall>u \<in> set stocks.
               case find (\<lambda>w. py_str (Kod w) = offer_id u) ws of
                 Some w \<Rightarrow> stock_of_count py (Kolichestvo w) = Inr (stock u)
               | None \<Rightarrow> stock u = 0)
          \<and> market_create_stocks py ws offer_ids warehouse_id date =
              Inr (map (\<lambda>u. sku_entry warehouse_id date (offer_id u) (stock u)) stocks, rest))"
proof -
  have "market_create_stocks py ws offer_ids warehouse_id date =
          Inr (map (\<lambda>u. sku_entry warehouse_id date (offer_id u) (stock u)) stocks, rest)"
    if "create_stocks py ws offer_ids = Inr (stocks, rest)"
    using that by (simp add: market_create_stocks_eq)
  then show ?thesis
    using create_stocks_returns [of ws offer_ids py] stocks_cover_catalog [OF assms, of py ws stocks rest]
    by blast
qed

text \<open>
  The scenario of a catalog \<open>A, B, C\<close> and a feed with \<open>A\<close> and \<open>C\<close>: the stocks are
  \<open>A: 100\<close>, \<open>C: 0\<close>, \<open>B: 0\<close>.
\<close>

theorem create_stocks_complete_witness:
  "distinct [''A'', ''B'', ''C'']
   \<and> create_stocks \<lparr>int_max_str_digits = 4300, unicode_isspace = \<lambda>ch. False, unicode_todecimal = \<lambda>ch. None\<rparr>
        [\<lparr>Kod = PStr ''A'', Kolichestvo = PStr ''>10'', Tsena = PStr ''1'000.00''\<rparr>,
         \<lparr>Kod = PStr ''C'', Kolichestvo = PStr ''1'', Tsena = PStr ''2'500.00''\<rparr>]
        [''A'', ''B'', ''C'']
       = Inr ([\<lparr>offer_id = ''A'', stock = 100\<rparr>, \<lparr>offer_id = ''C'', stock = 0\<rparr>,
               \<lparr>offer_id = ''B'', stock = 0\<rparr>], [''B''])
   \<and> mset (map offer_id [\<lparr>offer_id = ''A'', stock = 100\<rparr>, \<lparr>offer_id = ''C'', stock = 0\<rparr>,
               \<lparr>offer_id = ''B'', stock = 0\<rparr>]) = mset [''A'', ''B'', ''C'']
   \<and> market_create_stocks \<lparr>int_max_str_digits = 4300, unicode_isspace = \<lambda>ch. False, unicode_todecimal = \<lambda>ch. None\<rparr>
        [\<lparr>Kod = PStr ''A'', Kolichestvo = PStr ''>10'', Tsena = PStr ''1'000.00''\<rparr>,
         \<lparr>Kod = PStr ''C'', Kolichestvo = PStr ''1'', Tsena = PStr ''2'500.00''\<rparr>]
        [''A'', ''B'', ''C''] ''w'' ''d''
       = Inr ([sku_entry ''w'' ''d'' ''A'' 100, sku_entry ''w'' ''d'' ''C'' 0,
               sku_entry ''w'' ''d'' ''B'' 0], [''B''])"
proof -
  have d: "distinct [''A'', ''B'', ''C'']" by simp
  have c: "create_stocks \<lparr>int_max_str_digits = 4300, unicode_isspace = \<lambda>ch. False, unicode_todecimal = \<lambda>ch. None\<rparr>
        [\<lparr>Kod = PStr ''A'', Kolichestvo = PStr ''>10'', Tsena = PStr ''1'000.00''\<rparr>,
         \<lparr>Kod = PStr ''C'', Kolichestvo = PStr ''1'', Tsena = PStr ''2'500.00''\<rparr>]
        [''A'', ''B'', ''C'']
       = Inr ([\<lparr>offer_id = ''A'', stock = 100\<rparr>, \<lparr>offer_id = ''C'', stock = 0\<rparr>,
               \<lparr>offer_id = ''B'', stock = 0\<rparr>], [''B''])"
    by (simp add: create_stocks_def stock_of_count_def)
  from create_stocks_complete
         [OF d, where rest = "[''B'']" and warehouse_id = "''w''" and date = "''d''"
            and py = "\<lparr>int_max_str_digits = 4300, unicode_isspace = \<lambda>ch. False, unicode_todecimal = \<lambda>ch. None\<rparr>"]
       c
  have "mset (map offer_id [\<lparr>offer_id = ''A'', stock = 100\<rparr>, \<lparr>offer_id = ''C'', stock = 0\<rparr>,
               \<lparr>offer_id = ''B'', stock = 0\<rparr>]) = mset [''A'', ''B'', ''C'']
   \<and> market_create_stocks \<lparr>int_max_str_digits = 4300, unicode_isspace = \<lambda>ch. False, unicode_todecimal = \<lambda>ch. None\<rparr>
        [\<lparr>Kod = PStr ''A'', Kolichestvo = PStr ''>10'', Tsena = PStr ''1'000.00''\<rparr>,
         \<lparr>Kod = PStr ''C'', Kolichestvo = PStr ''1'', Tsena = PStr ''2'500.00''\<rparr>]
        [''A'', ''B'', ''C''] ''w'' ''d''
       = Inr (map (\<lambda>u. sku_entry ''w'' ''d'' (offer_id u) (stock u))
               [\<lparr>offer_id = ''A'', stock = 100\<rparr>, \<lparr>offer_id = ''C'', stock = 0\<rparr>,
                \<lparr>offer_id = ''B'', stock = 0\<rparr>], [''B''])"
    by blast
  with d c show ?thesis
    by simp
qed

text \<open>
  Claim C2 as stated does not hold for a feed that repeats an item code:
  \<open>create_prices\<close> does not remove a matched id, so the second record is priced
  again, while \<open>create_stocks\<close> matches the id once.
\<close>

theorem create_prices_duplicate_feed:
  "create_stocks \<lparr>int_max_str_digits = 4300, unicode_isspace = \<lambda>ch. False, unicode_todecimal = \<lambda>ch. None\<rparr>
     [\<lparr>Kod = PStr ''A'', Kolichestvo = PStr ''5'', Tsena = PStr ''10.00''\<rparr>,
      \<lparr>Kod = PStr ''A'', Kolichestvo = PStr ''5'', Tsena = PStr ''10.00''\<rparr>] [''A'']
     = Inr ([\<lparr>offer_id = ''A'', stock = 5\<rparr>], [])
   \<and> create_prices
     [\<lparr>Kod = PStr ''A'', Kolichestvo = PStr ''5'', Tsena = PStr ''10.00''\<rparr>,
      \<lparr>Kod = PStr ''A'', Kolichestvo = PStr ''5'', Tsena = PStr ''10.00''\<rparr>] [''A'']
     = Inr [ozon_price ''A'' ''10'', ozon_price ''A'' ''10'']"
  by (simp add: create_stocks_def create_prices_def stock_of_count_def first_item_def
      re_sub_non_digits_def int_eval)

text \<open>
  Claim C2, amended. Every price update carries an offer id that is in the catalog and
  is the code of a feed record. When the item codes of the feed are pairwise distinct
  and both functions return, the price updates are as many as the matched stock
  updates: the stock list starts with one entry per price update, with the same ids
  in the same order, and the rest of it is the zero fill of the unmatched ids. In every
  case the price updates are one for each feed record whose code is in the catalog, in
  feed order, so a code that the feed repeats is priced once for each occurrence.
\<close>

theorem create_prices_exclusive:
  "(create_prices ws offer_ids = Inr prices \<longrightarrow>
      (\<forall>p \<in> set prices. price_offer_id p \<in> set offer_ids
           \<and> (\<exists>w \<in> set ws. py_str (Kod w) = price_offer_id p)))
   \<and> (market_create_prices py ws offer_ids = Inr mprices \<longrightarrow>
      (\<forall>p \<in> set mprices. offer_price_id p \<in> set offer_ids
           \<and> (\<exists>w \<in> set ws. py_str (Kod w) = offer_price_id p)))
   \<and> (distinct (map (\<lambda>w. py_str (Kod w)) ws) \<and> create_stocks py ws offer_ids = Inr (stocks, rest) \<longrightarrow>
        (create_prices ws offer_ids = Inr prices \<longrightarrow>
           length prices = length stocks - length rest
           \<and> map offer_id (take (length prices) stocks) = map price_offer_id prices
           \<and> drop (length prices) stocks = map (\<lambda>i. \<lparr>offer_id = i, stock = 0\<rparr>) rest)
        \<and> (market_create_prices py ws offer_ids = Inr mprices \<longrightarrow>
           length mprices = length stocks - length rest
           \<and> map offer_id (take (length mprices) stocks) = map offer_price_id mprices
           \<and> drop (length mprices) stocks = map (\<lambda>i. \<lparr>offer_id = i, stock = 0\<rparr>) rest))
   \<and> (create_prices ws offer_ids = Inr prices \<longrightarrow>
        map price_offer_id prices
          = filter (\<lambda>c. c \<in> set offer_ids) (map (\<lambda>w. py_str (Kod w)) ws))
   \<and> (market_create_prices py ws offer_ids = Inr mprices \<longrightarrow>
        map offer_price_id mprices
          = filter (\<lambda>c. c \<in> set offer_ids) (map (\<lambda>w. py_str (Kod w)) ws))"
proof -
  let ?matched = "filter (\<lambda>c. c \<in> set offer_ids) (map (\<lambda>w. py_str (Kod w)) ws)"
  have sub: "set ?matched \<subseteq> set offer_ids \<inter> (\<lambda>w. py_str (Kod w)) ` set ws"
    by auto
  have ozon: "map price_offer_id prices = ?matched" if "create_prices ws offer_ids = Inr prices"
    using that create_prices_loop_ids [of ws offer_ids "[]" prices]
    by (auto simp: create_prices_def)
  have market: "map offer_price_id mprices = ?matched"
    if "market_create_prices py ws offer_ids = Inr mprices"
    using that market_create_prices_loop_ids [of py ws offer_ids "[]" mprices]
    by (auto simp: market_create_prices_def)
  have a: "\<forall>p \<in> set prices. price_offer_id p \<in> set offer_ids
           \<and> (\<exists>w \<in> set ws. py_str (Kod w) = price_offer_id p)"
    if "create_prices ws offer_ids = Inr prices"
  proof
    fix p assume "p \<in> set prices"
    then have "price_offer_id p \<in> set (map price_offer_id prices)" by simp
    with ozon [OF that] sub show "price_offer_id p \<in> set offer_ids
           \<and> (\<exists>w \<in> set ws. py_str (Kod w) = price_offer_id p)"
      by auto
  qed
  have b: "\<forall>p \<in> set mprices. offer_price_id p \<in> set offer_ids
           \<and> (\<exists>w \<in> set ws. py_str (Kod w) = offer_price_id p)"
    if "market_create_prices py ws offer_ids = Inr mprices"
  proof
    fix p assume "p \<in> set mprices"
    then have "offer_price_id p \<in> set (map offer_price_id mprices)" by simp
    with market [OF that] sub show "offer_price_id p \<in> set offer_ids
           \<and> (\<exists>w \<in> set ws. py_str (Kod w) = offer_price_id p)"
      by auto
  qed
  have c: "length ks = length stocks - length rest
           \<and> map offer_id (take (length ks) stocks) = ?matched
           \<and> drop (length ks) stocks = map (\<lambda>i. \<lparr>offer_id = i, stock = 0\<rparr>) rest"
    if d: "distinct (map (\<lambda>w. py_str (Kod w)) ws)"
      and s: "create_stocks py ws offer_ids = Inr (stocks, rest)"
      and k: "length ks = length ?matched" for ks :: "'x list"
  proof -
    from s obtain m where loop: "create_stocks_loop py ws offer_ids [] = Inr (m, rest)"
      and st: "stocks = m @ map (\<lambda>i. \<lparr>offer_id = i, stock = 0\<rparr>) rest"
      using create_stocks_split by blast
    from create_stocks_loop_matched [OF loop d] have m: "map offer_id m = ?matched"
      by simp
    then have "length m = length ks"
      using k by (metis length_map)
    with st m show ?thesis by simp
  qed
  have c1: "length prices = length stocks - length rest
           \<and> map offer_id (take (length prices) stocks) = map price_offer_id prices
           \<and> drop (length prices) stocks = map (\<lambda>i. \<lparr>offer_id = i, stock = 0\<rparr>) rest"
    if "distinct (map (\<lambda>w. py_str (Kod w)) ws)" "create_stocks py ws offer_ids = Inr (stocks, rest)"
       "create_prices ws offer_ids = Inr prices"
    using c [OF that(1,2), of prices] ozon [OF that(3)] by (metis length_map)
  have c2: "length mprices = length stocks - length rest
           \<and> map offer_id (take (length mprices) stocks) = map offer_price_id mprices
           \<and> drop (length mprices) stocks = map (\<lambda>i. \<lparr>offer_id = i, stock = 0\<rparr>) rest"
    if "distinct (map (\<lambda>w. py_str (Kod w)) ws)" "create_stocks py ws offer_ids = Inr (stocks, rest)"
       "market_create_prices py ws offer_ids = Inr mprices"
    using c [OF that(1,2), of mprices] market [OF that(3)] by (metis length_map)
  from a b c1 c2 ozon market show ?thesis by blast
qed

text \<open>The same scenario: two matched stocks, two prices.\<close>

theorem create_prices_exclusive_witness:
  "distinct (map (\<lambda>w. py_str (Kod w))
       [\<lparr>Kod = PStr ''A'', Kolichestvo = PStr ''>10'', Tsena = PStr ''1'000.00''\<rparr>,
        \<lparr>Kod = PStr ''C'', Kolichestvo = PStr ''1'', Tsena = PStr ''2'500.00''\<rparr>])
   \<and> create_stocks \<lparr>int_max_str_digits = 4300, unicode_isspace = \<lambda>ch. False, unicode_todecimal = \<lambda>ch. None\<rparr>
        [\<lparr>Kod = PStr ''A'', Kolichestvo = PStr ''>10'', Tsena = PStr ''1'000.00''\<rparr>,
         \<lparr>Kod = PStr ''C'', Kolichestvo = PStr ''1'', Tsena = PStr ''2'500.00''\<rparr>]
        [''A'', ''B'', ''C'']
       = Inr ([\<lparr>offer_id = ''A'', stock = 100\<rparr>, \<lparr>offer_id = ''C'', stock = 0\<rparr>,
               \<lparr>offer_id = ''B'', stock = 0\<rparr>], [''B''])
   \<and> create_prices
        [\<lparr>Kod = PStr ''A'', Kolichestvo = PStr ''>10'', Tsena = PStr ''1'000.00''\<rparr>,
         \<lparr>Kod = PStr ''C'', Kolichestvo = PStr ''1'', Tsena = PStr ''2'500.00''\<rparr>]
        [''A'', ''B'', ''C'']
       = Inr [ozon_price ''A'' ''1000'', ozon_price ''C'' ''2500'']
   \<and> market_create_prices \<lparr>int_max_str_digits = 4300, unicode_isspace = \<lambda>ch. False, unicode_todecimal = \<lambda>ch. None\<rparr>
        [\<lparr>Kod = PStr ''A'', Kolichestvo = PStr ''>10'', Tsena = PStr ''1'000.00''\<rparr>,
         \<lparr>Kod = PStr ''C'', Kolichestvo = PStr ''1'', Tsena = PStr ''2'500.00''\<rparr>]
        [''A'', ''B'', ''C'']
       = Inr [market_price ''A'' 1000, market_price ''C'' 2500]
   \<and> length [ozon_price ''A'' ''1000'', ozon_price ''C'' ''2500'']
       = length [\<lparr>offer_id = ''A'', stock = 100\<rparr>, \<lparr>offer_id = ''C'', stock = 0\<rparr>,
               \<lparr>offer_id = ''B'', stock = 0\<rparr>] - length [''B'']
   \<and> length [market_price ''A'' 1000, market_price ''C'' 2500]
       = length [\<lparr>offer_id = ''A'', stock = 100\<rparr>, \<lparr>offer_id = ''C'', stock = 0\<rparr>,
               \<lparr>offer_id = ''B'', stock = 0\<rparr>] - length [''B'']"
proof -
  let ?ws = "[\<lparr>Kod = PStr ''A'', Kolichestvo = PStr ''>10'', Tsena = PStr ''1'000.00''\<rparr>,
         \<lparr>Kod = PStr ''C'', Kolichestvo = PStr ''1'', Tsena = PStr ''2'500.00''\<rparr>]"
  let ?stocks = "[\<lparr>offer_id = ''A'', stock = 100\<rparr>, \<lparr>offer_id = ''C'', stock = 0\<rparr>,
               \<lparr>offer_id = ''B'', stock = 0\<rparr>]"
  have d: "distinct (map (\<lambda>w. py_str (Kod w)) ?ws)" by simp
  have s: "create_stocks \<lparr>int_max_str_digits = 4300, unicode_isspace = \<lambda>ch. False, unicode_todecimal = \<lambda>ch. None\<rparr> ?ws [''A'', ''B'', ''C''] = Inr (?stocks, [''B''])"
    by code_simp
  have p: "create_prices ?ws [''A'', ''B'', ''C'']
             = Inr [ozon_price ''A'' ''1000'', ozon_price ''C'' ''2500'']"
    by code_simp
  have m: "market_create_prices \<lparr>int_max_str_digits = 4300, unicode_isspace = \<lambda>ch. False, unicode_todecimal = \<lambda>ch. None\<rparr> ?ws [''A'', ''B'', ''C'']
             = Inr [market_price ''A'' 1000, market_price ''C'' 2500]"
    by code_simp
  from create_prices_exclusive
         [where ws = ?ws and offer_ids = "[''A'', ''B'', ''C'']"
            and prices = "[ozon_price ''A'' ''1000'', ozon_price ''C'' ''2500'']"
            and mprices = "[market_price ''A'' 1000, market_price ''C'' 2500]"
            and stocks = ?stocks and rest = "[''B'']"
            and py = "\<lparr>int_max_str_digits = 4300, unicode_isspace = \<lambda>ch. False, unicode_todecimal = \<lambda>ch. None\<rparr>"]
       d s p m
  have "length [ozon_price ''A'' ''1000'', ozon_price ''C'' ''2500''] = length ?stocks - length [''B'']
        \<and> length [market_price ''A'' 1000, market_price ''C'' 2500] = length ?stocks - length [''B'']"
    by blast
  with d s p m show ?thesis by blast
qed

lemma create_prices_after_create_stocks:
  assumes "distinct offer_ids" and "create_stocks py ws offer_ids = Inr (stocks, rest)"
  shows "create_prices ws rest = Inr []"
proof -
  from assms(2) obtain m where loop: "create_stocks_loop py ws offer_ids [] = Inr (m, rest)"
    using create_stocks_split by blast
  from create_stocks_loop_quantities [OF loop assms(1)]
  have "\<forall>w \<in> set ws. py_str (Kod w) \<notin> set rest"
    by auto
  then show ?thesis
    by (simp add: create_prices_def create_prices_loop_unmatched)
qed

section \<open>Submission of batches: lemmas\<close>

lemma submit_each_ok:
  "\<forall>j < length bs. update_reply srv (tr @ map mk (take j bs)) (mk (bs ! j)) = None \<Longrightarrow>
   submit_each srv mk bs tr = (Inr (), tr @ map mk bs)"
proof (induction bs arbitrary: tr)
  case Nil
  then show ?case by simp
next
  case (Cons b bs)
  from Cons.prems have first: "update_reply srv tr (mk b) = None"
    by fastforce
  have "\<forall>j < length bs.
          update_reply srv ((tr @ [mk b]) @ map mk (take j bs)) (mk (bs ! j)) = None"
  proof (intro allI impI)
    fix j assume "j < length bs"
    then have "Suc j < length (b # bs)" by simp
    with Cons.prems have
      "update_reply srv (tr @ map mk (take (Suc j) (b # bs))) (mk ((b # bs) ! Suc j)) = None"
      by blast
    then show "update_reply srv ((tr @ [mk b]) @ map mk (take j bs)) (mk (bs ! j)) = None"
      by simp
  qed
  from Cons.IH [OF this] first show ?case by simp
qed

lemma submit_each_fail:
  "k < length bs \<Longrightarrow>
   \<forall>j < k. update_reply srv (tr @ map mk (take j bs)) (mk (bs ! j)) = None \<Longrightarrow>
   update_reply srv (tr @ map mk (take k bs)) (mk (bs ! k)) = Some e \<Longrightarrow>
   submit_each srv mk bs tr = (Inl e, tr @ map mk (take (Suc k) bs))"
proof (induction bs arbitrary: tr k)
  case Nil
  then show ?case by simp
next
  case (Cons b bs)
  show ?case
  proof (cases k)
    case 0
    with Cons.prems show ?thesis by simp
  next
    case (Suc k')
    with Cons.prems have first: "update_reply srv tr (mk b) = None"
      by fastforce
    from Suc Cons.prems have len: "k' < length bs" by simp
    have before: "\<forall>j < k'.
          update_reply srv ((tr @ [mk b]) @ map mk (take j bs)) (mk (bs ! j)) = None"
    proof (intro allI impI)
      fix j assume "j < k'"
      then have "Suc j < k" using Suc by simp
      with Cons.prems have
        "update_reply srv (tr @ map mk (take (Suc j) (b # bs))) (mk ((b # bs) ! Suc j)) = None"
        by blast
      then show "update_reply srv ((tr @ [mk b]) @ map mk (take j bs)) (mk (bs ! j)) = None"
        by simp
    qed
    from Suc Cons.prems have at: "update_reply srv ((tr @ [mk b]) @ map mk (take k' bs)) (mk (bs ! k')) = Some e"
      by simp
    from Cons.IH [OF len before at] first Suc show ?thesis by simp
  qed
qed

lemma submit_each_calls:
  "\<exists>k \<le> length bs. snd (submit_each srv mk bs tr) = tr @ map mk (take k bs)"
proof (induction bs arbitrary: tr)
  case Nil
  then show ?case by simp
next
  case (Cons b bs)
  show ?case
  proof (cases "update_reply srv tr (mk b)")
    case (Some e)
    then have "snd (submit_each srv mk (b # bs) tr) = tr @ map mk (take 1 (b # bs))"
      by simp
    then show ?thesis
      by (metis One_nat_def Suc_leI length_Cons zero_less_Suc)
  next
    case None
    from Cons.IH [of "tr @ [mk b]"] obtain k where k: "k \<le> length bs"
      and s: "snd (submit_each srv mk bs (tr @ [mk b])) = (tr @ [mk b]) @ map mk (take k bs)"
      by blast
    from None s have "snd (submit_each srv mk (b # bs) tr) = tr @ map mk (take (Suc k) (b # bs))"
      by simp
    with k show ?thesis
      by (metis Suc_le_mono length_Cons)
  qed
qed

lemma submit_batches_calls:
  assumes "0 < n"
  shows "\<exists>cs. snd (submit_batches srv mk lst n tr) = tr @ map mk cs
           \<and> (\<forall>c \<in> set cs. c \<noteq> [] \<and> int (length c) \<le> n)"
proof -
  obtain chunks where d: "divide_list lst n = Inr chunks"
    using assms by (simp add: divide_list_pos)
  obtain k where "snd (submit_each srv mk chunks tr) = tr @ map mk (take k chunks)"
    using submit_each_calls by blast
  with d have "snd (submit_batches srv mk lst n tr) = tr @ map mk (take k chunks)"
    by (simp add: submit_batches_def)
  moreover have "\<forall>c \<in> set (take k chunks). c \<noteq> [] \<and> int (length c) \<le> n"
    using divide_list_chunk_le [OF assms d] by (meson in_set_takeD)
  ultimately show ?thesis by blast
qed

lemma submit_batches_empty: "0 < n \<Longrightarrow> submit_batches srv mk [] n tr = (Inr (), tr)"
  by (simp add: submit_batches_def divide_list_pos) (subst range_up.simps, simp)

lemma stock_calls_within:
  "\<forall>c \<in> set cs. c \<noteq> [] \<and> int (length c) \<le> int sc \<Longrightarrow>
   list_all (within_ceiling sc pc) (map UpdateStocks cs)"
  by (simp add: list_all_iff)

lemma price_calls_within:
  "\<forall>c \<in> set cs. c \<noteq> [] \<and> int (length c) \<le> int pc \<Longrightarrow>
   list_all (within_ceiling sc pc) (map UpdatePrice cs)"
  by (simp add: list_all_iff)

lemma stock_batches_within:
  assumes "0 < sc"
  shows "\<exists>new. snd (submit_batches srv UpdateStocks lst (int sc) tr) = tr @ new
          \<and> list_all (within_ceiling sc pc) new"
proof -
  from assms have "0 < int sc" by simp
  from submit_batches_calls [OF this] obtain cs where
    "snd (submit_batches srv UpdateStocks lst (int sc) tr) = tr @ map UpdateStocks cs"
    and "\<forall>c \<in> set cs. c \<noteq> [] \<and> int (length c) \<le> int sc"
    by blast
  then show ?thesis
    using stock_calls_within by blast
qed

lemma price_batches_within:
  assumes "0 < pc"
  shows "\<exists>new. snd (submit_batches srv UpdatePrice lst (int pc) tr) = tr @ new
          \<and> list_all (within_ceiling sc pc) new"
proof -
  from assms have "0 < int pc" by simp
  from submit_batches_calls [OF this] obtain cs where
    "snd (submit_batches srv UpdatePrice lst (int pc) tr) = tr @ map UpdatePrice cs"
    and "\<forall>c \<in> set cs. c \<noteq> [] \<and> int (length c) \<le> int pc"
    by blast
  then show ?thesis
    using price_calls_within by blast
qed

lemma upload_stocks_within:
  "\<exists>new. snd (upload_stocks py srv ws tr) = tr @ new \<and> list_all (within_ceiling 100 0) new"
proof (cases "offer_ids_reply srv tr")
  case (Inl e)
  then show ?thesis
    by (simp add: upload_stocks_def get_offer_ids_def)
next
  case ids: (Inr offer_ids)
  show ?thesis
  proof (cases "create_stocks py ws offer_ids")
    case (Inl e)
    with ids show ?thesis
      by (simp add: upload_stocks_def get_offer_ids_def)
  next
    case (Inr r)
    obtain stocks rest where r: "r = (stocks, rest)" by (cases r)
    obtain new where n: "snd (submit_batches srv UpdateStocks stocks 100 (tr @ [GetOfferIds]))
                          = (tr @ [GetOfferIds]) @ new"
      and w: "list_all (within_ceiling 100 0) new"
      using stock_batches_within [of 100 srv stocks "tr @ [GetOfferIds]" 0] by auto
    have "snd (upload_stocks py srv ws tr) = snd (submit_batches srv UpdateStocks stocks 100 (tr @ [GetOfferIds]))"
      using ids Inr r
      by (simp add: upload_stocks_def get_offer_ids_def split: prod.splits sum.splits)
    with n have "snd (upload_stocks py srv ws tr) = tr @ (GetOfferIds # new)" by simp
    moreover from w have "list_all (within_ceiling 100 0) (GetOfferIds # new)" by simp
    ultimately show ?thesis by blast
  qed
qed

lemma upload_prices_within:
  "\<exists>new. snd (upload_prices srv ws tr) = tr @ new \<and> list_all (within_ceiling 0 1000) new"
proof (cases "offer_ids_reply srv tr")
  case (Inl e)
  then show ?thesis
    by (simp add: upload_prices_def get_offer_ids_def)
next
  case ids: (Inr offer_ids)
  show ?thesis
  proof (cases "create_prices ws offer_ids")
    case (Inl e)
    with ids show ?thesis
      by (simp add: upload_prices_def get_offer_ids_def)
  next
    case (Inr prices)
    obtain new where n: "snd (submit_batches srv UpdatePrice prices 1000 (tr @ [GetOfferIds]))
                          = (tr @ [GetOfferIds]) @ new"
      and w: "list_all (within_ceiling 0 1000) new"
      using price_batches_within [of 1000 srv prices "tr @ [GetOfferIds]" 0] by auto
    have "snd (upload_prices srv ws tr) = snd (submit_batches srv UpdatePrice prices 1000 (tr @ [GetOfferIds]))"
      using ids Inr
      by (simp add: upload_prices_def get_offer_ids_def split: prod.splits sum.splits)
    with n have "snd (upload_prices srv ws tr) = tr @ (GetOfferIds # new)" by simp
    moreover from w have "list_all (within_ceiling 0 1000) (GetOfferIds # new)" by simp
    ultimately show ?thesis by blast
  qed
qed

lemma market_upload_stocks_within:
  "\<exists>new. snd (market_upload_stocks py srv ws wh d tr) = tr @ new
          \<and> list_all (within_ceiling 2000 0) new"
proof (cases "offer_ids_reply srv tr")
  case (Inl e)
  then show ?thesis
    by (simp add: market_upload_stocks_def get_offer_ids_def)
next
  case ids: (Inr offer_ids)
  show ?thesis
  proof (cases "market_create_stocks py ws offer_ids wh d")
    case (Inl e)
    with ids show ?thesis
      by (simp add: market_upload_stocks_def get_offer_ids_def)
  next
    case (Inr r)
    obtain stocks rest where r: "r = (stocks, rest)" by (cases r)
    obtain new where n: "snd (submit_batches srv UpdateStocks stocks 2000 (tr @ [GetOfferIds]))
                          = (tr @ [GetOfferIds]) @ new"
      and w: "list_all (within_ceiling 2000 0) new"
      using stock_batches_within [of 2000 srv stocks "tr @ [GetOfferIds]" 0] by auto
    have "snd (market_upload_stocks py srv ws wh d tr)
            = snd (submit_batches srv UpdateStocks stocks 2000 (tr @ [GetOfferIds]))"
      using ids Inr r
      by (simp add: market_upload_stocks_def get_offer_ids_def split: prod.splits sum.splits)
    with n have "snd (market_upload_stocks py srv ws wh d tr) = tr @ (GetOfferIds # new)" by simp
    moreover from w have "list_all (within_ceiling 2000 0) (GetOfferIds # new)" by simp
    ultimately show ?thesis by blast
  qed
qed

lemma market_upload_prices_within:
  "\<exists>new. snd (market_upload_prices py srv ws tr) = tr @ new \<and> list_all (within_ceiling 0 500) new"
proof (cases "offer_ids_reply srv tr")
  case (Inl e)
  then show ?thesis
    by (simp add: market_upload_prices_def get_offer_ids_def)
next
  case ids: (Inr offer_ids)
  show ?thesis
  proof (cases "market_create_prices py ws offer_ids")
    case (Inl e)
    with ids show ?thesis
      by (simp add: market_upload_prices_def get_offer_ids_def)
  next
    case (Inr prices)
    obtain new where n: "snd (submit_batches srv UpdatePrice prices 500 (tr @ [GetOfferIds]))
                          = (tr @ [GetOfferIds]) @ new"
      and w: "list_all (within_ceiling 0 500) new"
      using price_batches_within [of 500 srv prices "tr @ [GetOfferIds]" 0] by auto
    have "snd (market_upload_prices py srv ws tr)
            = snd (submit_batches srv UpdatePrice prices 500 (tr @ [GetOfferIds]))"
      using ids Inr
      by (simp add: market_upload_prices_def get_offer_ids_def split: prod.splits sum.splits)
    with n have "snd (market_upload_prices py srv ws tr) = tr @ (GetOfferIds # new)" by simp
    moreover from w have "list_all (within_ceiling 0 500) (GetOfferIds # new)" by simp
    ultimately show ?thesis by blast
  qed
qed

text \<open>
  The runs of \<open>main\<close>, by the step at which it stops: the trace is that of the steps
  made so far.
\<close>

lemma main_stages:
  "(\<exists>e. offer_ids_reply srv tr = Inl e \<and> main py srv tr = (handler e, tr @ [GetOfferIds]))
   \<or> (\<exists>ids e. offer_ids_reply srv tr = Inr ids
         \<and> download_reply srv (tr @ [GetOfferIds]) = Inl e
         \<and> main py srv tr = (handler e, tr @ [GetOfferIds, DownloadStock]))
   \<or> (\<exists>ids ws e. offer_ids_reply srv tr = Inr ids
         \<and> download_reply srv (tr @ [GetOfferIds]) = Inr ws
         \<and> create_stocks py ws ids = Inl e
         \<and> main py srv tr = (handler e, tr @ [GetOfferIds, DownloadStock]))
   \<or> (\<exists>ids ws stocks rest e tr3. offer_ids_reply srv tr = Inr ids
         \<and> download_reply srv (tr @ [GetOfferIds]) = Inr ws
         \<and> create_stocks py ws ids = Inr (stocks, rest)
         \<and> submit_batches srv UpdateStocks stocks 100 (tr @ [GetOfferIds, DownloadStock]) = (Inl e, tr3)
         \<and> main py srv tr = (handler e, tr3))
   \<or> (\<exists>ids ws stocks rest u tr3 e. offer_ids_reply srv tr = Inr ids
         \<and> download_reply srv (tr @ [GetOfferIds]) = Inr ws
         \<and> create_stocks py ws ids = Inr (stocks, rest)
         \<and> submit_batches srv UpdateStocks stocks 100 (tr @ [GetOfferIds, DownloadStock]) = (Inr u, tr3)
         \<and> create_prices ws rest = Inl e
         \<and> main py srv tr = (handler e, tr3))
   \<or> (\<exists>ids ws stocks rest u tr3 prices. offer_ids_reply srv tr = Inr ids
         \<and> download_reply srv (tr @ [GetOfferIds]) = Inr ws
         \<and> create_stocks py ws ids = Inr (stocks, rest)
         \<and> submit_batches srv UpdateStocks stocks 100 (tr @ [GetOfferIds, DownloadStock]) = (Inr u, tr3)
         \<and> create_prices ws rest = Inr prices
         \<and> snd (main py srv tr) = snd (submit_batches srv UpdatePrice prices 900 tr3))"
  unfolding main_def get_offer_ids_def download_stock_def
  by (auto split: sum.splits prod.splits)


lemma main_within:
  "\<exists>new. snd (main py srv tr) = tr @ new \<and> list_all (within_ceiling 100 900) new"
proof -
  have stock_part: "\<exists>new. t = tr @ new \<and> list_all (within_ceiling 100 900) new"
    if "submit_batches srv UpdateStocks stocks 100 (tr @ [GetOfferIds, DownloadStock]) = (r, t)"
    for stocks r t
  proof -
    obtain new where "snd (submit_batches srv UpdateStocks stocks 100 (tr @ [GetOfferIds, DownloadStock]))
                        = (tr @ [GetOfferIds, DownloadStock]) @ new"
      and "list_all (within_ceiling 100 900) new"
      using stock_batches_within [of 100 srv stocks "tr @ [GetOfferIds, DownloadStock]" 900] by auto
    with that have "t = tr @ (GetOfferIds # DownloadStock # new)
                    \<and> list_all (within_ceiling 100 900) (GetOfferIds # DownloadStock # new)"
      by simp
    then show ?thesis by blast
  qed
  have price_part: "\<exists>new. snd (submit_batches srv UpdatePrice prices 900 t) = tr @ new
                      \<and> list_all (within_ceiling 100 900) new"
    if "t = tr @ new1" "list_all (within_ceiling 100 900) new1" for prices t new1
  proof -
    obtain new2 where "snd (submit_batches srv UpdatePrice prices 900 t) = t @ new2"
      and "list_all (within_ceiling 100 900) new2"
      using price_batches_within [of 900 srv prices t 100] by auto
    with that have "snd (submit_batches srv UpdatePrice prices 900 t) = tr @ (new1 @ new2)
                    \<and> list_all (within_ceiling 100 900) (new1 @ new2)"
      by simp
    then show ?thesis by blast
  qed
  from main_stages [of srv tr py] show ?thesis
  proof (elim disjE exE conjE)
    fix e assume "main py srv tr = (handler e, tr @ [GetOfferIds])"
    then have "snd (main py srv tr) = tr @ [GetOfferIds]
               \<and> list_all (within_ceiling 100 900) [GetOfferIds :: (stock_update, price_update) call]"
      by simp
    then show ?thesis by blast
  next
    fix e ids assume "main py srv tr = (handler e, tr @ [GetOfferIds, DownloadStock])"
    then have "snd (main py srv tr) = tr @ [GetOfferIds, DownloadStock]
               \<and> list_all (within_ceiling 100 900)
                    [GetOfferIds :: (stock_update, price_update) call, DownloadStock]"
      by simp
    then show ?thesis by blast
  next
    fix e ids ws assume "main py srv tr = (handler e, tr @ [GetOfferIds, DownloadStock])"
    then have "snd (main py srv tr) = tr @ [GetOfferIds, DownloadStock]
               \<and> list_all (within_ceiling 100 900)
                    [GetOfferIds :: (stock_update, price_update) call, DownloadStock]"
      by simp
    then show ?thesis by blast
  next
    fix stocks e tr3
    assume "submit_batches srv UpdateStocks stocks 100 (tr @ [GetOfferIds, DownloadStock]) = (Inl e, tr3)"
      and "main py srv tr = (handler e, tr3)"
    with stock_part show ?thesis by fastforce
  next
    fix stocks u tr3 e
    assume "submit_batches srv UpdateStocks stocks 100 (tr @ [GetOfferIds, DownloadStock]) = (Inr u, tr3)"
      and "main py srv tr = (handler e, tr3)"
    with stock_part show ?thesis by fastforce
  next
    fix stocks u tr3 prices
    assume s: "submit_batches srv UpdateStocks stocks 100 (tr @ [GetOfferIds, DownloadStock]) = (Inr u, tr3)"
      and m: "snd (main py srv tr) = snd (submit_batches srv UpdatePrice prices 900 tr3)"
    from stock_part [OF s] obtain new1 where "tr3 = tr @ new1"
      and "list_all (within_ceiling 100 900) new1"
      by blast
    from price_part [OF this] m show ?thesis by simp
  qed
qed

lemma main_no_price_calls:
  assumes "\<forall>ids. offer_ids_reply srv tr = Inr ids \<longrightarrow> distinct ids"
  shows "\<exists>new. snd (main py srv tr) = tr @ new \<and> list_all (within_ceiling 100 0) new"
proof -
  have stock_part: "\<exists>new. t = tr @ new \<and> list_all (within_ceiling 100 0) new"
    if "submit_batches srv UpdateStocks stocks 100 (tr @ [GetOfferIds, DownloadStock]) = (r, t)"
    for stocks r t
  proof -
    obtain new where "snd (submit_batches srv UpdateStocks stocks 100 (tr @ [GetOfferIds, DownloadStock]))
                        = (tr @ [GetOfferIds, DownloadStock]) @ new"
      and "list_all (within_ceiling 100 0) new"
      using stock_batches_within [of 100 srv stocks "tr @ [GetOfferIds, DownloadStock]" 0] by auto
    with that have "t = tr @ (GetOfferIds # DownloadStock # new)
                    \<and> list_all (within_ceiling 100 0) (GetOfferIds # DownloadStock # new)"
      by simp
    then show ?thesis by blast
  qed
  from main_stages [of srv tr py] show ?thesis
  proof (elim disjE exE conjE)
    fix e assume "main py srv tr = (handler e, tr @ [GetOfferIds])"
    then have "snd (main py srv tr) = tr @ [GetOfferIds]
               \<and> list_all (within_ceiling 100 0) [GetOfferIds :: (stock_update, price_update) call]"
      by simp
    then show ?thesis by blast
  next
    fix e ids assume "main py srv tr = (handler e, tr @ [GetOfferIds, DownloadStock])"
    then have "snd (main py srv tr) = tr @ [GetOfferIds, DownloadStock]
               \<and> list_all (within_ceiling 100 0)
                    [GetOfferIds :: (stock_update, price_update) call, DownloadStock]"
      by simp
    then show ?thesis by blast
  next
    fix e ids ws assume "main py srv tr = (handler e, tr @ [GetOfferIds, DownloadStock])"
    then have "snd (main py srv tr) = tr @ [GetOfferIds, DownloadStock]
               \<and> list_all (within_ceiling 100 0)
                    [GetOfferIds :: (stock_update, price_update) call, DownloadStock]"
      by simp
    then show ?thesis by blast
  next
    fix stocks e tr3
    assume "submit_batches srv UpdateStocks stocks 100 (tr @ [GetOfferIds, DownloadStock]) = (Inl e, tr3)"
      and "main py srv tr = (handler e, tr3)"
    with stock_part show ?thesis by fastforce
  next
    fix stocks u tr3 e
    assume "submit_batches srv UpdateStocks stocks 100 (tr @ [GetOfferIds, DownloadStock]) = (Inr u, tr3)"
      and "main py srv tr = (handler e, tr3)"
    with stock_part show ?thesis by fastforce
  next
    fix ids ws stocks rest u tr3 prices
    assume i: "offer_ids_reply srv tr = Inr ids"
      and c: "create_stocks py ws ids = Inr (stocks, rest)"
      and s: "submit_batches srv UpdateStocks stocks 100 (tr @ [GetOfferIds, DownloadStock]) = (Inr u, tr3)"
      and p: "create_prices ws rest = Inr prices"
      and m: "snd (main py srv tr) = snd (submit_batches srv UpdatePrice prices 900 tr3)"
    from i assms have "distinct ids" by blast
    from create_prices_after_create_stocks [OF this c] p have "prices = []" by simp
    with m have "snd (main py srv tr) = tr3"
      by (simp add: submit_batches_empty)
    with stock_part [OF s] show ?thesis by simp
  qed
qed

lemma no_price_call: "list_all (within_ceiling sc 0) new \<Longrightarrow> UpdatePrice ps \<notin> set new"
  by (auto simp: list_all_iff)

lemma divide_list_250:
  assumes "length lst = 250"
  shows "divide_list lst 100 = Inr [take 100 lst, take 100 (drop 100 lst), drop 200 lst]"
proof -
  have r: "range_up 0 250 100 = [0, 100, 200]"
    by (simp add: range_up.simps)
  have "py_slice lst 0 (0 + 100) = take 100 lst"
    by (simp add: py_slice_nonneg)
  moreover have "py_slice lst 100 (100 + 100) = take 100 (drop 100 lst)"
    by (simp add: py_slice_nonneg)
  moreover have "py_slice lst 200 (200 + 100) = drop 200 lst"
    using assms by (simp add: py_slice_nonneg)
  ultimately show ?thesis
    using assms r by (simp add: divide_list_pos)
qed

lemma submit_each_success:
  "submit_each srv mk bs tr = (Inr u, tr') \<Longrightarrow> tr' = tr @ map mk bs"
proof (induction bs arbitrary: tr)
  case Nil
  then show ?case by simp
next
  case (Cons b bs)
  show ?case
  proof (cases "update_reply srv tr (mk b)")
    case None
    with Cons.prems have "submit_each srv mk bs (tr @ [mk b]) = (Inr u, tr')"
      by simp
    from Cons.IH [OF this] show ?thesis by simp
  next
    case (Some e)
    with Cons.prems show ?thesis by simp
  qed
qed

lemma submit_batches_success:
  "submit_batches srv mk lst n tr = (Inr u, tr') \<Longrightarrow>
   \<exists>batches. divide_list lst n = Inr batches \<and> tr' = tr @ map mk batches"
  by (cases "divide_list lst n") (auto simp: submit_batches_def dest: submit_each_success)

lemma upload_stocks_success:
  assumes "upload_stocks py srv ws tr = (Inr (not_empty, stocks), tr')"
  shows "\<exists>batches. divide_list stocks 100 = Inr batches
           \<and> tr' = tr @ GetOfferIds # map UpdateStocks batches"
proof -
  from assms obtain u where
    "submit_batches srv UpdateStocks stocks 100 (tr @ [GetOfferIds]) = (Inr u, tr')"
    by (auto simp: upload_stocks_def get_offer_ids_def split: sum.splits prod.splits)
  from submit_batches_success [OF this] show ?thesis by simp
qed

lemma upload_prices_success:
  assumes "upload_prices srv ws tr = (Inr prices, tr')"
  shows "\<exists>batches. divide_list prices 1000 = Inr batches
           \<and> tr' = tr @ GetOfferIds # map UpdatePrice batches"
proof -
  from assms obtain u where
    "submit_batches srv UpdatePrice prices 1000 (tr @ [GetOfferIds]) = (Inr u, tr')"
    by (auto simp: upload_prices_def get_offer_ids_def split: sum.splits prod.splits)
  from submit_batches_success [OF this] show ?thesis by simp
qed

lemma market_upload_stocks_success:
  assumes "market_upload_stocks py srv ws wh d tr = (Inr (not_empty, stocks), tr')"
  shows "\<exists>batches. divide_list stocks 2000 = Inr batches
           \<and> tr' = tr @ GetOfferIds # map UpdateStocks batches"
proof -
  from assms obtain u where
    "submit_batches srv UpdateStocks stocks 2000 (tr @ [GetOfferIds]) = (Inr u, tr')"
    by (auto simp: market_upload_stocks_def get_offer_ids_def split: sum.splits prod.splits)
  from submit_batches_success [OF this] show ?thesis by simp
qed

lemma market_upload_prices_success:
  assumes "market_upload_prices py srv ws tr = (Inr prices, tr')"
  shows "\<exists>batches. divide_list prices 500 = Inr batches
           \<and> tr' = tr @ GetOfferIds # map UpdatePrice batches"
proof -
  from assms obtain u where
    "submit_batches srv UpdatePrice prices 500 (tr @ [GetOfferIds]) = (Inr u, tr')"
    by (auto simp: market_upload_prices_def get_offer_ids_def split: sum.splits prod.splits)
  from submit_batches_success [OF this] show ?thesis by simp
qed

lemma handler_not_Finished: "handler e \<noteq> Finished"
  by (simp add: handler_def)

lemma main_success:
  assumes "main py srv tr = (Finished, tr')"
  shows "\<exists>ids ws stocks rest prices sb pb.
           offer_ids_reply srv tr = Inr ids
           \<and> download_reply srv (tr @ [GetOfferIds]) = Inr ws
           \<and> create_stocks py ws ids = Inr (stocks, rest)
           \<and> create_prices ws rest = Inr prices
           \<and> divide_list stocks 100 = Inr sb
           \<and> divide_list prices 900 = Inr pb
           \<and> tr' = tr @ [GetOfferIds, DownloadStock] @ map UpdateStocks sb @ map UpdatePrice pb"
proof -
  from assms obtain ids ws stocks rest prices u u' tr3 where
    i: "offer_ids_reply srv tr = Inr ids"
    and w: "download_reply srv (tr @ [GetOfferIds]) = Inr ws"
    and s: "create_stocks py ws ids = Inr (stocks, rest)"
    and b1: "submit_batches srv UpdateStocks stocks 100 (tr @ [GetOfferIds, DownloadStock]) = (Inr u, tr3)"
    and p: "create_prices ws rest = Inr prices"
    and b2: "submit_batches srv UpdatePrice prices 900 tr3 = (Inr u', tr')"
    unfolding main_def get_offer_ids_def download_stock_def
    by (auto simp: handler_not_Finished split: sum.splits prod.splits)
  from submit_batches_success [OF b1] obtain sb where
    sb: "divide_list stocks 100 = Inr sb" "tr3 = (tr @ [GetOfferIds, DownloadStock]) @ map UpdateStocks sb"
    by blast
  from submit_batches_success [OF b2] obtain pb where
    pb: "divide_list prices 900 = Inr pb" "tr' = tr3 @ map UpdatePrice pb"
    by blast
  from i w s p sb pb show ?thesis by simp
qed

section \<open>Upload flows: claims\<close>

lemma upload_stocks_propagates:
  assumes "offer_ids_reply srv tr = Inr ids" and "create_stocks py ws ids = Inr (stocks, rest)"
    and "submit_batches srv UpdateStocks stocks 100 (tr @ [GetOfferIds]) = (Inl e, tr')"
  shows "upload_stocks py srv ws tr = (Inl e, tr')"
  using assms by (simp add: upload_stocks_def get_offer_ids_def)

lemma market_upload_prices_propagates:
  assumes "offer_ids_reply srv tr = Inr ids" and "market_create_prices py ws ids = Inr prices"
    and "submit_batches srv UpdatePrice prices 500 (tr @ [GetOfferIds]) = (Inl e, tr')"
  shows "market_upload_prices py srv ws tr = (Inl e, tr')"
  using assms by (simp add: market_upload_prices_def get_offer_ids_def)

text \<open>
  Claim C8. The batches of \<open>divide\<close> are submitted one after the other in their order.
  When every call succeeds the calls made are exactly the batches; when call \<open>k\<close> is
  the first to fail, the calls made are the batches up to \<open>k\<close> and no other, and the
  error is the result. 250 updates with ceiling 100 are three batches of 100, 100 and
  50. \<open>upload_stocks\<close> of Ozon and \<open>upload_prices\<close> of Yandex Market hand the error of
  the loop on to their caller.
\<close>

theorem submission_aborts_on_failure:
  assumes "divide_list lst n = Inr batches"
  shows
    "((\<forall>j < length batches.
         update_reply srv (tr @ map update (take j batches)) (update (batches ! j)) = None)
        \<longrightarrow> submit_batches srv update lst n tr = (Inr (), tr @ map update batches))
     \<and> (\<forall>k e. k < length batches
            \<and> (\<forall>j < k. update_reply srv (tr @ map update (take j batches)) (update (batches ! j)) = None)
            \<and> update_reply srv (tr @ map update (take k batches)) (update (batches ! k)) = Some e
          \<longrightarrow> submit_batches srv update lst n tr = (Inl e, tr @ map update (take (Suc k) batches)))
     \<and> (length lst = 250 \<and> n = 100
          \<longrightarrow> batches = [take 100 lst, take 100 (drop 100 lst), drop 200 lst]
            \<and> map length batches = [100, 100, 50])
     \<and> (offer_ids_reply osrv otr = Inr ids \<and> create_stocks py ws ids = Inr (stocks, rest)
          \<and> submit_batches osrv UpdateStocks stocks 100 (otr @ [GetOfferIds]) = (Inl oe, otr')
          \<longrightarrow> upload_stocks py osrv ws otr = (Inl oe, otr'))
     \<and> (offer_ids_reply msrv mtr = Inr ids \<and> market_create_prices py ws ids = Inr mprices
          \<and> submit_batches msrv UpdatePrice mprices 500 (mtr @ [GetOfferIds]) = (Inl me, mtr')
          \<longrightarrow> market_upload_prices py msrv ws mtr = (Inl me, mtr'))"
proof -
  have ok: "submit_batches srv update lst n tr = (Inr (), tr @ map update batches)"
    if "\<forall>j < length batches.
         update_reply srv (tr @ map update (take j batches)) (update (batches ! j)) = None"
    using assms submit_each_ok [OF that] by (simp add: submit_batches_def)
  have fail: "submit_batches srv update lst n tr = (Inl e, tr @ map update (take (Suc k) batches))"
    if "k < length batches"
      "\<forall>j < k. update_reply srv (tr @ map update (take j batches)) (update (batches ! j)) = None"
      "update_reply srv (tr @ map update (take k batches)) (update (batches ! k)) = Some e"
    for k e
    using assms submit_each_fail [OF that] by (simp add: submit_batches_def)
  have sizes: "batches = [take 100 lst, take 100 (drop 100 lst), drop 200 lst]
            \<and> map length batches = [100, 100, 50]"
    if "length lst = 250" "n = 100"
    using assms that divide_list_250 [OF that(1)] by auto
  from ok fail sizes show ?thesis
    using upload_stocks_propagates market_upload_prices_propagates by blast
qed

text \<open>
  250 updates against a marketplace that fails the second call: two calls are made,
  the third batch is never submitted.
\<close>

theorem submission_aborts_on_failure_witness:
  "divide_list (replicate 250 (7 :: nat)) 100
     = Inr [replicate 100 7, replicate 100 7, replicate 50 7]
   \<and> submit_batches
        \<lparr>offer_ids_reply = \<lambda>tr. Inr [], download_reply = \<lambda>tr. Inr [],
         update_reply = \<lambda>tr c. if length tr = 1 then Some HTTPError else None\<rparr>
        UpdateStocks (replicate 250 (7 :: nat)) 100 ([] :: (nat, nat) call list)
     = (Inl HTTPError, [UpdateStocks (replicate 100 7), UpdateStocks (replicate 100 7)])"
proof -
  let ?srv = "\<lparr>offer_ids_reply = \<lambda>tr. Inr [], download_reply = \<lambda>tr. Inr [],
         update_reply = \<lambda>tr c. if length tr = 1 then Some HTTPError else None\<rparr>
           :: (nat, nat) server"
  have d: "divide_list (replicate 250 (7 :: nat)) 100
     = Inr [replicate 100 7, replicate 100 7, replicate 50 7]"
    by code_simp
  have "\<forall>k e. k < length [replicate 100 (7 :: nat), replicate 100 7, replicate 50 7]
            \<and> (\<forall>j < k. update_reply ?srv ([] @ map UpdateStocks (take j [replicate 100 7, replicate 100 7, replicate 50 7]))
                    (UpdateStocks ([replicate 100 7, replicate 100 7, replicate 50 7] ! j)) = None)
            \<and> update_reply ?srv ([] @ map UpdateStocks (take k [replicate 100 7, replicate 100 7, replicate 50 7]))
                    (UpdateStocks ([replicate 100 7, replicate 100 7, replicate 50 7] ! k)) = Some e
          \<longrightarrow> submit_batches ?srv UpdateStocks (replicate 250 7) 100 []
               = (Inl e, [] @ map UpdateStocks (take (Suc k) [replicate 100 7, replicate 100 7, replicate 50 7]))"
    using submission_aborts_on_failure [OF d, of ?srv "[]" UpdateStocks] by blast
  from this [rule_format, of 1 HTTPError] d show ?thesis
    by simp
qed

text \<open>
  Claim C9. Every batch submitted by \<open>upload_stocks\<close> of Ozon has at most 100 stock
  updates, by \<open>upload_prices\<close> of Ozon at most 1000 price updates, by \<open>main\<close> of Ozon at
  most 100 stock updates and at most 900 price updates, by \<open>upload_stocks\<close> of Yandex
  Market at most 2000 and by its \<open>upload_prices\<close> at most 500. A flow that runs to its
  end has submitted exactly the batches that \<open>divide\<close> makes with these sizes.
\<close>

theorem batch_ceilings:
  "(\<exists>new. snd (upload_stocks py srv ws tr) = tr @ new \<and> list_all (within_ceiling 100 0) new)
   \<and> (\<exists>new. snd (upload_prices srv ws tr) = tr @ new \<and> list_all (within_ceiling 0 1000) new)
   \<and> (\<exists>new. snd (main py srv tr) = tr @ new \<and> list_all (within_ceiling 100 900) new)
   \<and> (\<exists>new. snd (market_upload_stocks py msrv ws warehouse_id date mtr) = mtr @ new
         \<and> list_all (within_ceiling 2000 0) new)
   \<and> (\<exists>new. snd (market_upload_prices py msrv ws mtr) = mtr @ new
         \<and> list_all (within_ceiling 0 500) new)
   \<and> (upload_stocks py srv ws tr = (Inr (not_empty, stocks), tr')
        \<longrightarrow> (\<exists>batches. divide_list stocks 100 = Inr batches
              \<and> tr' = tr @ GetOfferIds # map UpdateStocks batches))
   \<and> (upload_prices srv ws tr = (Inr prices, tr')
        \<longrightarrow> (\<exists>batches. divide_list prices 1000 = Inr batches
              \<and> tr' = tr @ GetOfferIds # map UpdatePrice batches))
   \<and> (main py srv tr = (Finished, tr')
        \<longrightarrow> (\<exists>ids feed stocks' rest prices' sb pb.
              offer_ids_reply srv tr = Inr ids
              \<and> download_reply srv (tr @ [GetOfferIds]) = Inr feed
              \<and> create_stocks py feed ids = Inr (stocks', rest)
              \<and> create_prices feed rest = Inr prices'
              \<and> divide_list stocks' 100 = Inr sb
              \<and> divide_list prices' 900 = Inr pb
              \<and> tr' = tr @ [GetOfferIds, DownloadStock] @ map UpdateStocks sb @ map UpdatePrice pb))
   \<and> (market_upload_stocks py msrv ws warehouse_id date mtr = (Inr (mnot_empty, mstocks), mtr')
        \<longrightarrow> (\<exists>batches. divide_list mstocks 2000 = Inr batches
              \<and> mtr' = mtr @ GetOfferIds # map UpdateStocks batches))
   \<and> (market_upload_prices py msrv ws mtr = (Inr mprices, mtr')
        \<longrightarrow> (\<exists>batches. divide_list mprices 500 = Inr batches
              \<and> mtr' = mtr @ GetOfferIds # map UpdatePrice batches))"
  using upload_stocks_within [of py srv ws tr] upload_prices_within [of srv ws tr]
    main_within [of py srv tr]
    market_upload_stocks_within [of py msrv ws warehouse_id date mtr]
    market_upload_prices_within [of py msrv ws mtr]
    upload_stocks_success [of py srv ws tr not_empty stocks tr']
    upload_prices_success [of srv ws tr prices tr']
    main_success [of py srv tr tr']
    market_upload_stocks_success [of py msrv ws warehouse_id date mtr mnot_empty mstocks mtr']
    market_upload_prices_success [of py msrv ws mtr mprices mtr']
  by blast

text \<open>
  One run of \<open>upload_prices\<close> of Ozon: its single call is the one batch that
  \<open>divide\<close> with 1000 makes of the price list.
\<close>

theorem batch_ceilings_witness:
  "upload_prices
       \<lparr>offer_ids_reply = \<lambda>tr. Inr [''A'', ''B''],
        download_reply = \<lambda>tr. Inr [],
        update_reply = \<lambda>tr c. None\<rparr>
       [\<lparr>Kod = PStr ''A'', Kolichestvo = PStr ''5'', Tsena = PStr ''10.00''\<rparr>] []
       = (Inr [ozon_price ''A'' ''10''], [GetOfferIds, UpdatePrice [ozon_price ''A'' ''10'']])
   \<and> (\<exists>batches. divide_list [ozon_price ''A'' ''10''] 1000 = Inr batches
          \<and> ([GetOfferIds, UpdatePrice [ozon_price ''A'' ''10'']]
               :: (stock_update, price_update) call list)
             = [] @ GetOfferIds # map UpdatePrice batches)"
proof -
  have u: "upload_prices
       \<lparr>offer_ids_reply = \<lambda>tr. Inr [''A'', ''B''],
        download_reply = \<lambda>tr. Inr [],
        update_reply = \<lambda>tr c. None\<rparr>
       [\<lparr>Kod = PStr ''A'', Kolichestvo = PStr ''5'', Tsena = PStr ''10.00''\<rparr>] []
       = (Inr [ozon_price ''A'' ''10''], [GetOfferIds, UpdatePrice [ozon_price ''A'' ''10'']])"
    by code_simp
  from batch_ceilings
         [where srv = "\<lparr>offer_ids_reply = \<lambda>tr. Inr [''A'', ''B''], download_reply = \<lambda>tr. Inr [],
               update_reply = \<lambda>tr c. None\<rparr>"
            and ws = "[\<lparr>Kod = PStr ''A'', Kolichestvo = PStr ''5'', Tsena = PStr ''10.00''\<rparr>]"
            and tr = "[]"
            and tr' = "[GetOfferIds, UpdatePrice [ozon_price ''A'' ''10'']]"
            and prices = "[ozon_price ''A'' ''10'']",
          THEN conjunct2, THEN conjunct2, THEN conjunct2, THEN conjunct2, THEN conjunct2,
          THEN conjunct2, THEN conjunct1]
       u
  show ?thesis by blast
qed

lemma submit_each_first:
  "\<exists>more. snd (submit_each srv mk (b # bs) tr) = tr @ mk b # more"
proof (cases "update_reply srv tr (mk b)")
  case (Some e)
  then show ?thesis by simp
next
  case None
  obtain k where "snd (submit_each srv mk bs (tr @ [mk b])) = (tr @ [mk b]) @ map mk (take k bs)"
    using submit_each_calls by blast
  with None show ?thesis by simp
qed

lemma upload_prices_submits:
  assumes "offer_ids_reply srv tr = Inr ids" and "create_prices ws ids = Inr prices"
    and "prices \<noteq> []"
  shows "\<exists>batch more. snd (upload_prices srv ws tr) = tr @ GetOfferIds # UpdatePrice batch # more"
proof -
  obtain batches where d: "divide_list prices 1000 = Inr batches"
    by (simp add: divide_list_pos)
  then have "concat batches = prices"
    using divide_list_concat [of 1000 prices batches] by simp
  with assms(3) obtain b bs where bs: "batches = b # bs"
    by (cases batches) auto
  obtain more where
    "snd (submit_each srv UpdatePrice (b # bs) (tr @ [GetOfferIds])) = (tr @ [GetOfferIds]) @ UpdatePrice b # more"
    using submit_each_first by blast
  with d bs have "snd (submit_batches srv UpdatePrice prices 1000 (tr @ [GetOfferIds]))
                    = tr @ GetOfferIds # UpdatePrice b # more"
    by (simp add: submit_batches_def)
  moreover have "snd (upload_prices srv ws tr)
                   = snd (submit_batches srv UpdatePrice prices 1000 (tr @ [GetOfferIds]))"
    using assms(1,2)
    by (simp add: upload_prices_def get_offer_ids_def split: prod.splits sum.splits)
  ultimately show ?thesis by simp
qed

text \<open>
  Claim C10. \<open>main\<close> of Ozon hands the list that \<open>create_stocks\<close> has emptied of every
  matched id on to \<open>create_prices\<close>. The offer ids of a catalog are pairwise distinct;
  then the list left by \<open>create_stocks\<close> holds no code of the feed, so \<open>create_prices\<close>
  on it returns the empty list for every feed, with or without repeated codes, and
  \<open>main\<close> makes no price submission at all. \<open>upload_prices\<close> fetches the offer ids
  itself and submits a first batch whenever its price list is not empty.
\<close>

theorem main_submits_no_price:
  "(distinct offer_ids \<and> create_stocks py ws offer_ids = Inr (stocks, rest)
      \<longrightarrow> create_prices ws rest = Inr [])
   \<and> ((\<forall>ids. offer_ids_reply srv tr = Inr ids \<longrightarrow> distinct ids)
      \<longrightarrow> (\<exists>new. snd (main py srv tr) = tr @ new \<and> (\<forall>ps. UpdatePrice ps \<notin> set new)))
   \<and> (offer_ids_reply srv tr = Inr offer_ids \<and> create_prices ws offer_ids = Inr prices
        \<and> prices \<noteq> []
      \<longrightarrow> (\<exists>batch more.
            snd (upload_prices srv ws tr) = tr @ GetOfferIds # UpdatePrice batch # more))"
proof -
  have "\<exists>new. snd (main py srv tr) = tr @ new \<and> (\<forall>ps. UpdatePrice ps \<notin> set new)"
    if "\<forall>ids. offer_ids_reply srv tr = Inr ids \<longrightarrow> distinct ids"
  proof -
    from main_no_price_calls [OF that] obtain new where "snd (main py srv tr) = tr @ new"
      and "list_all (within_ceiling 100 0) new"
      by blast
    then show ?thesis
      using no_price_call by blast
  qed
  then show ?thesis
    using create_prices_after_create_stocks [of offer_ids py ws stocks rest]
      upload_prices_submits [of srv tr offer_ids ws prices]
    by blast
qed

text \<open>
  One marketplace and one feed: \<open>main\<close> submits the stocks and no price, while
  \<open>upload_prices\<close>, which fetches the offer ids itself, submits the price of \<open>A\<close>.
\<close>

theorem main_submits_no_price_witness:
  "distinct [''A'', ''B'']
   \<and> create_stocks \<lparr>int_max_str_digits = 4300, unicode_isspace = \<lambda>ch. False, unicode_todecimal = \<lambda>ch. None\<rparr> [\<lparr>Kod = PStr ''A'', Kolichestvo = PStr ''5'', Tsena = PStr ''10.00''\<rparr>] [''A'', ''B'']
       = Inr ([\<lparr>offer_id = ''A'', stock = 5\<rparr>, \<lparr>offer_id = ''B'', stock = 0\<rparr>], [''B''])
   \<and> create_prices [\<lparr>Kod = PStr ''A'', Kolichestvo = PStr ''5'', Tsena = PStr ''10.00''\<rparr>] [''B'']
       = Inr []
   \<and> main \<lparr>int_max_str_digits = 4300, unicode_isspace = \<lambda>ch. False, unicode_todecimal = \<lambda>ch. None\<rparr>
       \<lparr>offer_ids_reply = \<lambda>tr. Inr [''A'', ''B''],
        download_reply = \<lambda>tr. Inr [\<lparr>Kod = PStr ''A'', Kolichestvo = PStr ''5'', Tsena = PStr ''10.00''\<rparr>],
        update_reply = \<lambda>tr c. None\<rparr> []
       = (Finished,
          [GetOfferIds, DownloadStock,
           UpdateStocks [\<lparr>offer_id = ''A'', stock = 5\<rparr>, \<lparr>offer_id = ''B'', stock = 0\<rparr>]])
   \<and> upload_prices
       \<lparr>offer_ids_reply = \<lambda>tr. Inr [''A'', ''B''],
        download_reply = \<lambda>tr. Inr [\<lparr>Kod = PStr ''A'', Kolichestvo = PStr ''5'', Tsena = PStr ''10.00''\<rparr>],
        update_reply = \<lambda>tr c. None\<rparr>
       [\<lparr>Kod = PStr ''A'', Kolichestvo = PStr ''5'', Tsena = PStr ''10.00''\<rparr>] []
       = (Inr [ozon_price ''A'' ''10''], [GetOfferIds, UpdatePrice [ozon_price ''A'' ''10'']])"
proof -
  have d: "distinct [''A'', ''B'']" by simp
  have c: "create_stocks \<lparr>int_max_str_digits = 4300, unicode_isspace = \<lambda>ch. False, unicode_todecimal = \<lambda>ch. None\<rparr> [\<lparr>Kod = PStr ''A'', Kolichestvo = PStr ''5'', Tsena = PStr ''10.00''\<rparr>] [''A'', ''B'']
       = Inr ([\<lparr>offer_id = ''A'', stock = 5\<rparr>, \<lparr>offer_id = ''B'', stock = 0\<rparr>], [''B''])"
    by code_simp
  have p: "create_prices [\<lparr>Kod = PStr ''A'', Kolichestvo = PStr ''5'', Tsena = PStr ''10.00''\<rparr>] [''B'']
       = Inr []"
    using main_submits_no_price
      [where offer_ids = "[''A'', ''B'']"
         and ws = "[\<lparr>Kod = PStr ''A'', Kolichestvo = PStr ''5'', Tsena = PStr ''10.00''\<rparr>]"
         and stocks = "[\<lparr>offer_id = ''A'', stock = 5\<rparr>, \<lparr>offer_id = ''B'', stock = 0\<rparr>]"
         and rest = "[''B'']"
         and py = "\<lparr>int_max_str_digits = 4300, unicode_isspace = \<lambda>ch. False, unicode_todecimal = \<lambda>ch. None\<rparr>"]
      d c
    by blast
  have m: "main \<lparr>int_max_str_digits = 4300, unicode_isspace = \<lambda>ch. False, unicode_todecimal = \<lambda>ch. None\<rparr>
       \<lparr>offer_ids_reply = \<lambda>tr. Inr [''A'', ''B''],
        download_reply = \<lambda>tr. Inr [\<lparr>Kod = PStr ''A'', Kolichestvo = PStr ''5'', Tsena = PStr ''10.00''\<rparr>],
        update_reply = \<lambda>tr c. None\<rparr> []
       = (Finished,
          [GetOfferIds, DownloadStock,
           UpdateStocks [\<lparr>offer_id = ''A'', stock = 5\<rparr>, \<lparr>offer_id = ''B'', stock = 0\<rparr>]])"
    by code_simp
  have u: "upload_prices
       \<lparr>offer_ids_reply = \<lambda>tr. Inr [''A'', ''B''],
        download_reply = \<lambda>tr. Inr [\<lparr>Kod = PStr ''A'', Kolichestvo = PStr ''5'', Tsena = PStr ''10.00''\<rparr>],
        update_reply = \<lambda>tr c. None\<rparr>
       [\<lparr>Kod = PStr ''A'', Kolichestvo = PStr ''5'', Tsena = PStr ''10.00''\<rparr>] []
       = (Inr [ozon_price ''A'' ''10''], [GetOfferIds, UpdatePrice [ozon_price ''A'' ''10'']])"
    by code_simp
  from d c p m u show ?thesis by blast
qed

text \<open>
  The distinctness of the offer ids is what empties the list: were an id to occur
  twice in the list fetched, \<open>remove\<close> would delete one occurrence and \<open>main\<close> would
  price the other.
\<close>

lemma main_repeated_catalog_id:
  "main \<lparr>int_max_str_digits = 4300, unicode_isspace = \<lambda>ch. False, unicode_todecimal = \<lambda>ch. None\<rparr>
     \<lparr>offer_ids_reply = \<lambda>tr. Inr [''A'', ''A''],
      download_reply = \<lambda>tr. Inr [\<lparr>Kod = PStr ''A'', Kolichestvo = PStr ''5'', Tsena = PStr ''10.00''\<rparr>],
      update_reply = \<lambda>tr c. None\<rparr> []
   = (Finished,
      [GetOfferIds, DownloadStock,
       UpdateStocks [\<lparr>offer_id = ''A'', stock = 5\<rparr>, \<lparr>offer_id = ''A'', stock = 0\<rparr>],
       UpdatePrice [ozon_price ''A'' ''10'']])"
  by code_simp

end
